theory Spec2Isabelle
  imports Complex_Main
begin

chapter \<open>The model\<close>

section \<open>Conventions\<close>

text \<open>
  The engine is TypeScript. A \<^verbatim>\<open>number\<close> is modelled as a \<^typ>\<open>real\<close>: the sums, products and
  comparisons of the source are the exact ones, and no rounding of IEEE doubles is modelled.
  Where the source accumulates doubles over many calls (the elapsed time of a phase, the
  accumulator of an emitter), the sums of the model are exact, and a sum of steps that meets a
  threshold exactly in the model can fall short of it by a rounding error in the source. The
  properties below are therefore stated for comparisons of a single step, or with the tolerance
  of one unit that such a rounding error stays within.
  Counters and indices that the source only ever increments from zero are \<^typ>\<open>nat\<close>.
  A class is a record of its fields and a method is a function from the record to the updated
  record. A callback is an opaque value; invoking it is recorded in a log of the model.
\<close>

section \<open>SceneTransition (scenes/SceneTransition.ts)\<close>

datatype TransitionPhase =
    none
  | fade_out
  | title_display
  | fade_in
  | death_flash
  | death_text
  | death_hold
  | victory_banner
  | victory_hold

record 'cb TransitionState =
  phase :: TransitionPhase
  elapsed :: real
  duration :: real
  text' :: string
  subText :: string
  onComplete :: "'cb option"
  textColor :: string

definition FADE_OUT_DURATION :: real where "FADE_OUT_DURATION = 0.5"
definition TITLE_DISPLAY_DURATION :: real where "TITLE_DISPLAY_DURATION = 1.5"
definition FADE_IN_DURATION :: real where "FADE_IN_DURATION = 0.5"
definition DEATH_FLASH_DURATION :: real where "DEATH_FLASH_DURATION = 0.3"
definition DEATH_TEXT_DURATION :: real where "DEATH_TEXT_DURATION = 2.0"
definition DEATH_HOLD_DURATION :: real where "DEATH_HOLD_DURATION = 1.5"
definition VICTORY_BANNER_DURATION :: real where "VICTORY_BANNER_DURATION = 2.5"
definition VICTORY_HOLD_DURATION :: real where "VICTORY_HOLD_DURATION = 1.5"

text \<open>
  The object: its private \<^verbatim>\<open>state\<close> field, and \<open>invoked\<close>, the callbacks called so far, oldest
  first (the only effect of the class outside its own field, drawing apart).
\<close>

record 'cb SceneTransition =
  state :: "'cb TransitionState"
  invoked :: "'cb list"

definition SceneTransition_new :: "'cb SceneTransition" where
  "SceneTransition_new =
     \<lparr> state = \<lparr> phase = none, elapsed = 0, duration = 0, text' = [], subText = [],
                  onComplete = None, textColor = ''#ffffff'' \<rparr>,
       invoked = [] \<rparr>"

definition isActive :: "'cb SceneTransition \<Rightarrow> bool" where
  "isActive T = (phase (state T) \<noteq> none)"

definition startSceneEntry ::
  "string \<Rightarrow> string \<Rightarrow> 'cb option \<Rightarrow> 'cb SceneTransition \<Rightarrow> 'cb SceneTransition" where
  "startSceneEntry sceneName gameName cb T =
     T\<lparr> state := \<lparr> phase = title_display, elapsed = 0, duration = TITLE_DISPLAY_DURATION,
                    text' = sceneName, subText = gameName, onComplete = cb,
                    textColor = ''#d4a017'' \<rparr> \<rparr>"

definition startDeath :: "string \<Rightarrow> 'cb option \<Rightarrow> 'cb SceneTransition \<Rightarrow> 'cb SceneTransition" where
  "startDeath deathText cb T =
     T\<lparr> state := \<lparr> phase = death_flash, elapsed = 0, duration = DEATH_FLASH_DURATION,
                    text' = deathText, subText = [], onComplete = cb,
                    textColor = ''#8b0000'' \<rparr> \<rparr>"

definition startVictory :: "string \<Rightarrow> 'cb option \<Rightarrow> 'cb SceneTransition \<Rightarrow> 'cb SceneTransition" where
  "startVictory victoryText cb T =
     T\<lparr> state := \<lparr> phase = victory_banner, elapsed = 0, duration = VICTORY_BANNER_DURATION,
                    text' = victoryText, subText = [], onComplete = cb,
                    textColor = ''#ffd700'' \<rparr> \<rparr>"

text \<open>\<^verbatim>\<open>s.onComplete?.()\<close>: the callback, when there is one, is called.\<close>

definition callOnComplete :: "'cb SceneTransition \<Rightarrow> 'cb SceneTransition" where
  "callOnComplete T =
     (case onComplete (state T) of
        None \<Rightarrow> T
      | Some cb \<Rightarrow> T\<lparr> invoked := invoked T @ [cb] \<rparr>)"

definition setPhase ::
  "TransitionPhase \<Rightarrow> real \<Rightarrow> 'cb SceneTransition \<Rightarrow> 'cb SceneTransition" where
  "setPhase p d T = T\<lparr> state := (state T)\<lparr> phase := p, elapsed := 0, duration := d \<rparr> \<rparr>"

definition endPhase :: "'cb SceneTransition \<Rightarrow> 'cb SceneTransition" where
  "endPhase T = callOnComplete (T\<lparr> state := (state T)\<lparr> phase := none \<rparr> \<rparr>)"

definition advancePhase :: "'cb SceneTransition \<Rightarrow> 'cb SceneTransition" where
  "advancePhase T =
     (case phase (state T) of
        fade_out \<Rightarrow> setPhase title_display TITLE_DISPLAY_DURATION T
      | title_display \<Rightarrow> setPhase fade_in FADE_IN_DURATION T
      | fade_in \<Rightarrow> endPhase T
      | death_flash \<Rightarrow> setPhase death_text DEATH_TEXT_DURATION T
      | death_text \<Rightarrow> setPhase death_hold DEATH_HOLD_DURATION T
      | death_hold \<Rightarrow> endPhase T
      | victory_banner \<Rightarrow> setPhase victory_hold VICTORY_HOLD_DURATION T
      | victory_hold \<Rightarrow> endPhase T
      | none \<Rightarrow> T\<lparr> state := (state T)\<lparr> phase := none \<rparr> \<rparr>)"

definition SceneTransition_update :: "real \<Rightarrow> 'cb SceneTransition \<Rightarrow> 'cb SceneTransition" where
  "SceneTransition_update dt T =
     (if phase (state T) = none then T
      else
        let T1 = T\<lparr> state := (state T)\<lparr> elapsed := elapsed (state T) + dt \<rparr> \<rparr>
        in if elapsed (state T1) \<ge> duration (state T1) then advancePhase T1 else T1)"

text \<open>A sequence of \<^verbatim>\<open>update\<close> calls, one per element, first element first.\<close>

fun updates :: "real list \<Rightarrow> 'cb SceneTransition \<Rightarrow> 'cb SceneTransition" where
  "updates [] T = T"
| "updates (dt # dts) T = updates dts (SceneTransition_update dt T)"

text \<open>The phases a run of \<^verbatim>\<open>update\<close> calls visits: the phase before each call and the last one.\<close>

fun phases :: "real list \<Rightarrow> 'cb SceneTransition \<Rightarrow> TransitionPhase list" where
  "phases [] T = [phase (state T)]"
| "phases (dt # dts) T = phase (state T) # phases dts (SceneTransition_update dt T)"

section \<open>Camera (engine/camera.ts)\<close>

record Point =
  x :: real
  y :: real

definition WORLD_WIDTH :: real where "WORLD_WIDTH = 384"
definition WORLD_HEIGHT :: real where "WORLD_HEIGHT = 216"

record Camera =
  worldWidth :: real
  worldHeight :: real
  viewportWidth :: real
  viewportHeight :: real
  scale :: real
  offsetX :: real
  offsetY :: real

definition Camera_new :: "real \<Rightarrow> real \<Rightarrow> Camera" where
  "Camera_new ww wh =
     \<lparr> worldWidth = ww, worldHeight = wh, viewportWidth = 0, viewportHeight = 0,
       scale = 1, offsetX = 0, offsetY = 0 \<rparr>"

text \<open>
  \<^verbatim>\<open>Math.floor\<close> is \<^const>\<open>floor\<close> and \<^verbatim>\<open>Math.round\<close>, which rounds a half upwards, is
  \<^const>\<open>round\<close> (\<open>round x = \<lfloor>x + 1/2\<rfloor>\<close>). A division by a zero world size, which gives an
  infinity or NaN in the source, is outside the model.
\<close>

definition resize :: "real \<Rightarrow> real \<Rightarrow> Camera \<Rightarrow> Camera" where
  "resize vw vh c =
     (let scaleX = vw / worldWidth c;
          scaleY = vh / worldHeight c;
          rawScale = min scaleX scaleY;
          sc = (if rawScale \<ge> 1 then max 1 (of_int \<lfloor>rawScale\<rfloor>) else rawScale);
          scaledWidth = worldWidth c * sc;
          scaledHeight = worldHeight c * sc
      in c\<lparr> viewportWidth := vw, viewportHeight := vh, scale := sc,
            offsetX := of_int (round ((vw - scaledWidth) / 2)),
            offsetY := of_int (round ((vh - scaledHeight) / 2)) \<rparr>)"

definition worldToScreen :: "Camera \<Rightarrow> real \<Rightarrow> real \<Rightarrow> Point" where
  "worldToScreen c wx wy =
     \<lparr> x = of_int (round (wx * scale c + offsetX c)),
       y = of_int (round (wy * scale c + offsetY c)) \<rparr>"

definition screenToWorld :: "Camera \<Rightarrow> real \<Rightarrow> real \<Rightarrow> Point" where
  "screenToWorld c sx sy =
     \<lparr> x = (sx - offsetX c) / scale c,
       y = (sy - offsetY c) / scale c \<rparr>"

definition getScale :: "Camera \<Rightarrow> real" where
  "getScale c = scale c"

definition getOffset :: "Camera \<Rightarrow> Point" where
  "getOffset c = \<lparr> x = offsetX c, y = offsetY c \<rparr>"

section \<open>GameLoop (engine/gameLoop.ts)\<close>

text \<open>
  The callbacks are opaque values. Calling one is recorded in \<open>calls\<close> with the \<^verbatim>\<open>dt\<close> it
  received, oldest call first; a callback does not change the loop itself.
  \<^verbatim>\<open>requestAnimationFrame\<close> hands out a fresh handle, here the next number.
\<close>

record 'cb GameLoop =
  running :: bool
  animId :: nat
  lastTimestamp :: real
  updateCallbacks :: "'cb list"
  renderCallbacks :: "'cb list"
  frameCount :: nat
  fpsAccumulator :: real
  currentFps :: nat
  paused :: bool
  calls :: "('cb \<times> real) list"

definition GameLoop_new :: "'cb GameLoop" where
  "GameLoop_new =
     \<lparr> running = False, animId = 0, lastTimestamp = 0, updateCallbacks = [],
       renderCallbacks = [], frameCount = 0, fpsAccumulator = 0, currentFps = 0,
       paused = False, calls = [] \<rparr>"

definition handleVisibility :: "bool \<Rightarrow> 'cb GameLoop \<Rightarrow> 'cb GameLoop" where
  "handleVisibility hidden g =
     (if hidden then g\<lparr> paused := True \<rparr>
      else g\<lparr> paused := False, lastTimestamp := 0 \<rparr>)"

definition onUpdate :: "'cb \<Rightarrow> 'cb GameLoop \<Rightarrow> 'cb GameLoop" where
  "onUpdate cb g = g\<lparr> updateCallbacks := updateCallbacks g @ [cb] \<rparr>"

definition onRender :: "'cb \<Rightarrow> 'cb GameLoop \<Rightarrow> 'cb GameLoop" where
  "onRender cb g = g\<lparr> renderCallbacks := renderCallbacks g @ [cb] \<rparr>"

definition offUpdate :: "'cb \<Rightarrow> 'cb GameLoop \<Rightarrow> 'cb GameLoop" where
  "offUpdate cb g = g\<lparr> updateCallbacks := remove1 cb (updateCallbacks g) \<rparr>"

definition offRender :: "'cb \<Rightarrow> 'cb GameLoop \<Rightarrow> 'cb GameLoop" where
  "offRender cb g = g\<lparr> renderCallbacks := remove1 cb (renderCallbacks g) \<rparr>"

definition requestAnimationFrame :: "'cb GameLoop \<Rightarrow> 'cb GameLoop" where
  "requestAnimationFrame g = g\<lparr> animId := Suc (animId g) \<rparr>"

definition start :: "'cb GameLoop \<Rightarrow> 'cb GameLoop" where
  "start g =
     (if running g then g
      else requestAnimationFrame (g\<lparr> running := True, lastTimestamp := 0, paused := False \<rparr>))"

definition stop :: "'cb GameLoop \<Rightarrow> 'cb GameLoop" where
  "stop g = g\<lparr> running := False, updateCallbacks := [], renderCallbacks := [] \<rparr>"

definition getFps :: "'cb GameLoop \<Rightarrow> nat" where
  "getFps g = currentFps g"

definition tick :: "real \<Rightarrow> 'cb GameLoop \<Rightarrow> 'cb GameLoop" where
  "tick timestamp g =
     (if \<not> running g then g
      else
        let g1 = requestAnimationFrame g in
        if paused g1 then g1\<lparr> lastTimestamp := 0 \<rparr>
        else if lastTimestamp g1 = 0 then g1\<lparr> lastTimestamp := timestamp \<rparr>
        else
          let dtMs0 = timestamp - lastTimestamp g1;
              g2 = g1\<lparr> lastTimestamp := timestamp \<rparr>;
              dtMs = (if dtMs0 > 100 then 100 else dtMs0);
              dt = dtMs / 1000;
              g3 = g2\<lparr> frameCount := Suc (frameCount g2),
                        fpsAccumulator := fpsAccumulator g2 + dtMs \<rparr>;
              g4 = (if fpsAccumulator g3 \<ge> 1000
                    then g3\<lparr> currentFps := frameCount g3, frameCount := 0,
                              fpsAccumulator := fpsAccumulator g3 - 1000 \<rparr>
                    else g3)
          in g4\<lparr> calls := calls g4 @ map (\<lambda>cb. (cb, dt)) (updateCallbacks g4)
                                    @ map (\<lambda>cb. (cb, dt)) (renderCallbacks g4) \<rparr>)"

text \<open>
  What can happen to a loop, and a run of such events. The visibility listener is registered by
  \<^verbatim>\<open>start\<close> and removed by \<^verbatim>\<open>stop\<close>, so a visibility change reaches a running loop only.
\<close>

datatype 'cb LoopEvent =
    Start
  | Stop
  | OnUpdate 'cb
  | OnRender 'cb
  | OffUpdate 'cb
  | OffRender 'cb
  | Visibility bool
  | Tick real

fun loopStep :: "'cb LoopEvent \<Rightarrow> 'cb GameLoop \<Rightarrow> 'cb GameLoop" where
  "loopStep Start g = start g"
| "loopStep Stop g = stop g"
| "loopStep (OnUpdate cb) g = onUpdate cb g"
| "loopStep (OnRender cb) g = onRender cb g"
| "loopStep (OffUpdate cb) g = offUpdate cb g"
| "loopStep (OffRender cb) g = offRender cb g"
| "loopStep (Visibility hidden) g = (if running g then handleVisibility hidden g else g)"
| "loopStep (Tick timestamp) g = tick timestamp g"

fun loopRun :: "'cb LoopEvent list \<Rightarrow> 'cb GameLoop \<Rightarrow> 'cb GameLoop" where
  "loopRun [] g = g"
| "loopRun (e # es) g = loopRun es (loopStep e g)"

section \<open>AnimationController (engine/animation.ts)\<close>

record AnimationDef =
  frames :: "string list"
  frameDuration :: real
  loop :: bool

text \<open>
  \<open>sheet\<close> is the \<^verbatim>\<open>sprites\<close> table of the sprite sheet; a sprite is a value of the type \<open>'s\<close>.
  A \<^verbatim>\<open>Record<string, _>\<close> is a map from strings, and \<^verbatim>\<open>null\<close> is \<^const>\<open>None\<close>. Where the source
  tests a string for truth (\<^verbatim>\<open>!this.currentAnim\<close>), the empty string counts as absent. A name
  that the source's table inherits from \<^verbatim>\<open>Object.prototype\<close> (such as \<^verbatim>\<open>toString\<close>) is outside the
  model.
\<close>

record 's AnimationController =
  sheet :: "string \<rightharpoonup> 's"
  animations :: "string \<rightharpoonup> AnimationDef"
  currentAnim :: "string option"
  currentFrameIndex :: nat
  ac_elapsed :: real
  finished :: bool
  pendingAnim :: "string option"
  transitionMap :: "string \<rightharpoonup> string"

definition AnimationController_new ::
  "(string \<rightharpoonup> 's) \<Rightarrow> (string \<rightharpoonup> AnimationDef) \<Rightarrow> 's AnimationController" where
  "AnimationController_new sh anims =
     \<lparr> sheet = sh, animations = anims, currentAnim = None, currentFrameIndex = 0,
       ac_elapsed = 0, finished = False, pendingAnim = None, transitionMap = Map.empty \<rparr>"

definition truthy :: "string option \<Rightarrow> bool" where
  "truthy s = (case s of None \<Rightarrow> False | Some n \<Rightarrow> n \<noteq> [])"

definition setTransition :: "string \<Rightarrow> string \<Rightarrow> 's AnimationController \<Rightarrow> 's AnimationController" where
  "setTransition targetAnim transitionAnim c =
     c\<lparr> transitionMap := (transitionMap c)(targetAnim \<mapsto> transitionAnim) \<rparr>"

definition switchTo :: "string \<Rightarrow> 's AnimationController \<Rightarrow> 's AnimationController" where
  "switchTo animName c =
     (if animations c animName = None then c
      else c\<lparr> currentAnim := Some animName, currentFrameIndex := 0, ac_elapsed := 0,
              finished := False \<rparr>)"

definition AnimationController_play ::
  "string \<Rightarrow> 's AnimationController \<Rightarrow> 's AnimationController" where
  "AnimationController_play animName c =
     (if currentAnim c = Some animName \<and> \<not> finished c then c
      else
        let transition = transitionMap c animName in
        if truthy transition \<and> transition \<noteq> currentAnim c
             \<and> animations c (the transition) \<noteq> None
        then switchTo (the transition) (c\<lparr> pendingAnim := Some animName \<rparr>)
        else switchTo animName (c\<lparr> pendingAnim := None \<rparr>))"

text \<open>
  The \<^verbatim>\<open>while\<close> loop of \<^verbatim>\<open>update\<close>. With a frame duration that is not positive a looping
  animation never leaves it, so the loop is a partial function and \<^const>\<open>None\<close> stands for a
  call that does not return.
\<close>

partial_function (option) stepFrames ::
  "AnimationDef \<Rightarrow> 's AnimationController \<Rightarrow> 's AnimationController option" where
  "stepFrames anim c =
     (if ac_elapsed c \<ge> frameDuration anim then
        let c1 = c\<lparr> ac_elapsed := ac_elapsed c - frameDuration anim,
                     currentFrameIndex := Suc (currentFrameIndex c) \<rparr>
        in if currentFrameIndex c1 \<ge> length (frames anim) then
             if loop anim then stepFrames anim (c1\<lparr> currentFrameIndex := 0 \<rparr>)
             else
               let c2 = c1\<lparr> currentFrameIndex := length (frames anim) - 1, finished := True \<rparr>
               in if truthy (pendingAnim c2)
                  then Some (switchTo (the (pendingAnim c2)) (c2\<lparr> pendingAnim := None \<rparr>))
                  else Some c2
           else stepFrames anim c1
      else Some c)"

definition AnimationController_update ::
  "real \<Rightarrow> 's AnimationController \<Rightarrow> 's AnimationController option" where
  "AnimationController_update dt c =
     (if \<not> truthy (currentAnim c) \<or> finished c then Some c
      else case animations c (the (currentAnim c)) of
             None \<Rightarrow> Some c
           | Some anim \<Rightarrow>
               if frames anim = [] then Some c
               else stepFrames anim (c\<lparr> ac_elapsed := ac_elapsed c + dt \<rparr>))"

text \<open>
  \<^verbatim>\<open>anim.frames[i]\<close> past the end of the array is \<^verbatim>\<open>undefined\<close>, and indexing the sprite table
  with it reads the key \<^verbatim>\<open>"undefined"\<close>.
\<close>

definition getCurrentFrame :: "'s AnimationController \<Rightarrow> 's option" where
  "getCurrentFrame c =
     (if \<not> truthy (currentAnim c) then None
      else case animations c (the (currentAnim c)) of
             None \<Rightarrow> None
           | Some anim \<Rightarrow>
               if frames anim = [] then None
               else if currentFrameIndex c < length (frames anim)
                    then sheet c (frames anim ! currentFrameIndex c)
                    else sheet c ''undefined'')"

definition getCurrentAnimationName :: "'s AnimationController \<Rightarrow> string option" where
  "getCurrentAnimationName c = currentAnim c"

definition AnimationController_isFinished :: "'s AnimationController \<Rightarrow> bool" where
  "AnimationController_isFinished c = finished c"

text \<open>A run of \<^verbatim>\<open>update\<close> calls; it returns when every call does.\<close>

fun AnimationController_updates ::
  "real list \<Rightarrow> 's AnimationController \<Rightarrow> 's AnimationController option" where
  "AnimationController_updates [] c = Some c"
| "AnimationController_updates (dt # dts) c =
     (case AnimationController_update dt c of
        None \<Rightarrow> None
      | Some c' \<Rightarrow> AnimationController_updates dts c')"

section \<open>LpcAnimator (engine/imageSprite.ts)\<close>

datatype LpcDirection = Up | Left | Down | Right

record LpcAnimationDef =
  lpc_sheet :: string
  direction :: LpcDirection
  startFrame :: int
  lpc_frameCount :: int
  lpc_frameDuration :: real
  lpc_loop :: bool

record LpcAnimator =
  lpc_currentAnim :: "LpcAnimationDef option"
  currentAnimName :: string
  animTime :: real
  currentFrame :: int
  lpc_animations :: "string \<rightharpoonup> LpcAnimationDef"
  lpc_finished :: bool

definition LpcAnimator_new :: LpcAnimator where
  "LpcAnimator_new =
     \<lparr> lpc_currentAnim = None, currentAnimName = [], animTime = 0, currentFrame = 0,
       lpc_animations = Map.empty, lpc_finished = False \<rparr>"

definition defineAnimation :: "string \<Rightarrow> LpcAnimationDef \<Rightarrow> LpcAnimator \<Rightarrow> LpcAnimator" where
  "defineAnimation name def a = a\<lparr> lpc_animations := (lpc_animations a)(name \<mapsto> def) \<rparr>"

definition LpcAnimator_play :: "string \<Rightarrow> LpcAnimator \<Rightarrow> LpcAnimator" where
  "LpcAnimator_play name a =
     (if name = currentAnimName a \<and> \<not> lpc_finished a then a
      else case lpc_animations a name of
             None \<Rightarrow> a
           | Some anim \<Rightarrow>
               a\<lparr> lpc_currentAnim := Some anim, currentAnimName := name, animTime := 0,
                  currentFrame := 0, lpc_finished := False \<rparr>)"

definition LpcAnimator_update :: "real \<Rightarrow> LpcAnimator \<Rightarrow> LpcAnimator" where
  "LpcAnimator_update dt a =
     (case lpc_currentAnim a of
        None \<Rightarrow> a
      | Some anim \<Rightarrow>
          if lpc_finished a then a
          else
            let a1 = a\<lparr> animTime := animTime a + dt \<rparr>;
                frameDur = lpc_frameDuration anim;
                totalFrames = lpc_frameCount anim
            in if animTime a1 \<ge> frameDur then
                 let a2 = a1\<lparr> animTime := animTime a1 - frameDur,
                              currentFrame := currentFrame a1 + 1 \<rparr>
                 in if currentFrame a2 \<ge> totalFrames then
                      if lpc_loop anim then a2\<lparr> currentFrame := 0 \<rparr>
                      else a2\<lparr> currentFrame := totalFrames - 1, lpc_finished := True \<rparr>
                    else a2
               else a1)"

definition getCurrentSheetKey :: "LpcAnimator \<Rightarrow> string option" where
  "getCurrentSheetKey a = map_option lpc_sheet (lpc_currentAnim a)"

definition getCurrentColumn :: "LpcAnimator \<Rightarrow> int" where
  "getCurrentColumn a =
     (case lpc_currentAnim a of None \<Rightarrow> 0 | Some anim \<Rightarrow> startFrame anim + currentFrame a)"

definition getCurrentRow :: "LpcAnimator \<Rightarrow> LpcDirection" where
  "getCurrentRow a = (case lpc_currentAnim a of None \<Rightarrow> Down | Some anim \<Rightarrow> direction anim)"

definition getCurrentAnimName :: "LpcAnimator \<Rightarrow> string" where
  "getCurrentAnimName a = currentAnimName a"

definition LpcAnimator_isFinished :: "LpcAnimator \<Rightarrow> bool" where
  "LpcAnimator_isFinished a = lpc_finished a"

section \<open>ParticleSystem (engine/particles.ts)\<close>

text \<open>\<open>color\<close> is \<^const>\<open>None\<close> when the palette read was \<^verbatim>\<open>undefined\<close> (an index outside the palette).\<close>

record Particle =
  p_x :: real
  p_y :: real
  vx :: real
  vy :: real
  color :: "string option"
  alpha :: real
  life :: real
  maxLife :: real
  p_size :: real
  p_alphaMax :: real
  active :: bool

record ParticleEmitterConfig =
  e_x :: real
  e_y :: real
  rate :: real
  spread :: real
  angle :: real
  speedMin :: real
  speedMax :: real
  colors :: "string list"
  lifetimeMin :: real
  lifetimeMax :: real
  gravity :: real
  sizeMin :: real
  sizeMax :: real
  maxParticles :: real
  alphaMax :: "real option"

text \<open>
  \<^verbatim>\<open>Math.random\<close> is a source of numbers outside the class: \<open>random\<close> is the sequence of values
  it returns and \<open>drawn\<close> the number of values taken from it so far.
\<close>

record ParticleSystem =
  pool :: "Particle list"
  emitters :: "ParticleEmitterConfig list"
  accumulators :: "real list"
  random :: "nat \<Rightarrow> real"
  drawn :: nat

definition createDeadParticle :: Particle where
  "createDeadParticle =
     \<lparr> p_x = 0, p_y = 0, vx = 0, vy = 0, color = Some ''#fff'', alpha = 1, life = 0,
       maxLife = 1, p_size = 1, p_alphaMax = 1, active = False \<rparr>"

definition ParticleSystem_new :: "nat \<Rightarrow> (nat \<Rightarrow> real) \<Rightarrow> ParticleSystem" where
  "ParticleSystem_new maxPoolSize rnd =
     \<lparr> pool = replicate maxPoolSize createDeadParticle, emitters = [], accumulators = [],
       random = rnd, drawn = 0 \<rparr>"

definition addEmitter :: "ParticleEmitterConfig \<Rightarrow> ParticleSystem \<Rightarrow> nat \<times> ParticleSystem" where
  "addEmitter config ps =
     (length (emitters ps),
      ps\<lparr> emitters := emitters ps @ [config], accumulators := accumulators ps @ [0] \<rparr>)"

definition clearEmitters :: "ParticleSystem \<Rightarrow> ParticleSystem" where
  "clearEmitters ps = ps\<lparr> emitters := [], accumulators := [] \<rparr>"

definition updateEmitter :: "nat \<Rightarrow> real \<Rightarrow> real \<Rightarrow> ParticleSystem \<Rightarrow> ParticleSystem" where
  "updateEmitter index ex ey ps =
     (if index < length (emitters ps)
      then ps\<lparr> emitters := (emitters ps)[index := (emitters ps ! index)\<lparr> e_x := ex, e_y := ey \<rparr>] \<rparr>
      else ps)"

text \<open>The scan of \<^verbatim>\<open>spawnParticle\<close> for the first slot of the pool that is not active.\<close>

fun findInactive :: "Particle list \<Rightarrow> nat option" where
  "findInactive [] = None"
| "findInactive (p # ps) = (if \<not> active p then Some 0 else map_option Suc (findInactive ps))"

definition pickColor :: "string list \<Rightarrow> real \<Rightarrow> string option" where
  "pickColor cs r =
     (let i = \<lfloor>r * real (length cs)\<rfloor>
      in if 0 \<le> i \<and> nat i < length cs then Some (cs ! nat i) else None)"

definition spawnParticle :: "ParticleEmitterConfig \<Rightarrow> ParticleSystem \<Rightarrow> ParticleSystem" where
  "spawnParticle config ps =
     (case findInactive (pool ps) of
        None \<Rightarrow> ps
      | Some i \<Rightarrow>
          let r = random ps; k = drawn ps;
              ang = angle config + (r k - 0.5) * spread config;
              speed = speedMin config + r (k + 1) * (speedMax config - speedMin config);
              lifetime = lifetimeMin config + r (k + 2) * (lifetimeMax config - lifetimeMin config);
              p = \<lparr> p_x = e_x config + (r (k + 3) - 0.5) * 4,
                    p_y = e_y config + (r (k + 4) - 0.5) * 4,
                    vx = cos ang * speed,
                    vy = sin ang * speed,
                    color = pickColor (colors config) (r (k + 5)),
                    alpha = 1,
                    life = 1,
                    maxLife = lifetime,
                    p_size = sizeMin config + r (k + 6) * (sizeMax config - sizeMin config),
                    p_alphaMax = (case alphaMax config of None \<Rightarrow> 1 | Some a \<Rightarrow> a),
                    active = True \<rparr>
          in ps\<lparr> pool := (pool ps)[i := p], drawn := k + 7 \<rparr>)"

fun burst :: "ParticleEmitterConfig \<Rightarrow> nat \<Rightarrow> ParticleSystem \<Rightarrow> ParticleSystem" where
  "burst config 0 ps = ps"
| "burst config (Suc n) ps = burst config n (spawnParticle config ps)"

text \<open>
  The inner \<^verbatim>\<open>while\<close> loop of \<^verbatim>\<open>update\<close> for the emitter \<open>i\<close>. An accumulator that does not
  exist reads as \<^verbatim>\<open>undefined\<close>, which is not \<open>\<ge> 1\<close>.
\<close>

function emitWhile :: "ParticleEmitterConfig \<Rightarrow> nat \<Rightarrow> ParticleSystem \<Rightarrow> ParticleSystem" where
  "emitWhile config i ps =
     (if i < length (accumulators ps) \<and> accumulators ps ! i \<ge> 1
      then emitWhile config i
             (spawnParticle config
                (ps\<lparr> accumulators := (accumulators ps)[i := accumulators ps ! i - 1] \<rparr>))
      else ps)"
  by pat_completeness auto
termination
  by (relation "measure (\<lambda>(config, i, ps). nat \<lceil>accumulators ps ! i\<rceil>)")
     (auto simp: spawnParticle_def Let_def split: option.splits)

declare emitWhile.simps [simp del]

definition emitOne :: "real \<Rightarrow> nat \<Rightarrow> ParticleSystem \<Rightarrow> ParticleSystem" where
  "emitOne dt i ps =
     (let config = emitters ps ! i
      in emitWhile config i
           (ps\<lparr> accumulators := (accumulators ps)[i := accumulators ps ! i + rate config * dt] \<rparr>))"

definition emitAll :: "real \<Rightarrow> ParticleSystem \<Rightarrow> ParticleSystem" where
  "emitAll dt ps = fold (emitOne dt) [0..<length (emitters ps)] ps"

text \<open>
  The body of the second loop of \<^verbatim>\<open>update\<close> for one particle, \<open>g\<close> being the gravity of the
  first emitter. A particle whose \<^verbatim>\<open>maxLife\<close> is 0, where the source divides by zero, is outside
  the model.
\<close>

definition integrate :: "real \<Rightarrow> real \<Rightarrow> Particle \<Rightarrow> Particle" where
  "integrate dt g p =
     (if \<not> active p then p
      else
        let p1 = p\<lparr> life := life p - dt / maxLife p \<rparr>
        in if life p1 \<le> 0 then p1\<lparr> active := False \<rparr>
           else
             let p2 = p1\<lparr> vy := vy p1 + g * dt \<rparr>;
                 p3 = p2\<lparr> p_x := p_x p2 + vx p2 * dt \<rparr>;
                 p4 = p3\<lparr> p_y := p_y p3 + vy p3 * dt \<rparr>
             in p4\<lparr> alpha := life p4 * p_alphaMax p4 \<rparr>)"

definition ParticleSystem_update :: "real \<Rightarrow> ParticleSystem \<Rightarrow> ParticleSystem" where
  "ParticleSystem_update dt ps =
     (let ps1 = emitAll dt ps;
          g = (if length (emitters ps1) > 0 then gravity (emitters ps1 ! 0) else 0)
      in ps1\<lparr> pool := map (integrate dt g) (pool ps1) \<rparr>)"

definition activeCount :: "ParticleSystem \<Rightarrow> nat" where
  "activeCount ps = length (filter active (pool ps))"

text \<open>
  The number of particles the emitter \<open>i\<close> spawns in one \<^verbatim>\<open>update\<close> call is the growth of the
  active count over its turn of the emission pass, which comes after the turns of the emitters
  before it (a turn never retires a particle). The number it spawns over \<open>n\<close> calls with the
  same \<open>dt\<close> is the sum over the calls.
\<close>

definition spawnedBy :: "real \<Rightarrow> nat \<Rightarrow> ParticleSystem \<Rightarrow> nat" where
  "spawnedBy dt i ps =
     (let ps1 = fold (emitOne dt) [0..<i] ps
      in activeCount (emitOne dt i ps1) - activeCount ps1)"

fun spawnedOver :: "nat \<Rightarrow> real \<Rightarrow> nat \<Rightarrow> ParticleSystem \<Rightarrow> nat" where
  "spawnedOver 0 dt i ps = 0"
| "spawnedOver (Suc n) dt i ps =
     spawnedBy dt i ps + spawnedOver n dt i (ParticleSystem_update dt ps)"

text \<open>The embers preset of \<^verbatim>\<open>PARTICLE_PRESETS\<close>.\<close>

definition embers :: "real \<Rightarrow> real \<Rightarrow> ParticleEmitterConfig" where
  "embers ex ey =
     \<lparr> e_x = ex, e_y = ey, rate = 8, spread = 1.0, angle = - pi / 2, speedMin = 5,
       speedMax = 20, colors = [''#ff6600'', ''#ff8800'', ''#ffaa00''], lifetimeMin = 1.0,
       lifetimeMax = 3.0, gravity = - 5, sizeMin = 1, sizeMax = 3, maxParticles = 40,
       alphaMax = None \<rparr>"

text \<open>A source of random numbers that always returns a half.\<close>

definition halves :: "nat \<Rightarrow> real" where
  "halves n = 1 / 2"

section \<open>CharacterController (characters/CharacterController.ts)\<close>

datatype AnimationState =
  idle | walk | inscribe | read | forge | meditate | stagger | victory | rest | enter | exit

text \<open>The string of each state, which is the name the animators know it by.\<close>

fun stateName :: "AnimationState \<Rightarrow> string" where
  "stateName idle = ''idle''"
| "stateName walk = ''walk''"
| "stateName inscribe = ''inscribe''"
| "stateName read = ''read''"
| "stateName forge = ''forge''"
| "stateName meditate = ''meditate''"
| "stateName stagger = ''stagger''"
| "stateName victory = ''victory''"
| "stateName rest = ''rest''"
| "stateName enter = ''enter''"
| "stateName exit = ''exit''"

datatype CharacterType = hunter | knight

datatype Facing = left | right

definition WALK_SPEED :: real where "WALK_SPEED = 60"
definition ARRIVE_THRESHOLD :: real where "ARRIVE_THRESHOLD = 2"

text \<open>
  \<open>lpcManager\<close> keeps of the image manager what the controller reads of it, its \<^verbatim>\<open>loaded\<close>
  flag. The character's sprite sheet and animation table, which the constructor takes from the
  asset registry, are arguments of \<open>CharacterController_new\<close>.
\<close>

record 's CharacterController =
  position :: Point
  targetPosition :: Point
  currentState :: AnimationState
  ctype :: CharacterType
  facing :: Facing
  animator :: "'s AnimationController"
  walking :: bool
  actionPositions :: "AnimationState \<rightharpoonup> Point"
  lpcManager :: "bool option"
  lpcAnimator :: "LpcAnimator option"
  lpcFrameSize :: real
  lpcScale :: real
  lpcSheetPrefix :: string
  lpcBaseAnims :: "string \<rightharpoonup> LpcAnimationDef"

definition CharacterController_new ::
  "CharacterType \<Rightarrow> Point \<Rightarrow> (string \<rightharpoonup> 's) \<Rightarrow> (string \<rightharpoonup> AnimationDef)
     \<Rightarrow> 's CharacterController" where
  "CharacterController_new ty startPosition sh anims =
     \<lparr> position = startPosition, targetPosition = startPosition, currentState = idle,
       ctype = ty, facing = right,
       animator = AnimationController_play ''idle'' (AnimationController_new sh anims),
       walking = False, actionPositions = Map.empty, lpcManager = None, lpcAnimator = None,
       lpcFrameSize = 64, lpcScale = 1, lpcSheetPrefix = [], lpcBaseAnims = Map.empty \<rparr>"

definition initLpc ::
  "bool \<Rightarrow> string \<Rightarrow> real \<Rightarrow> real \<Rightarrow> (string \<times> LpcAnimationDef) list
     \<Rightarrow> 's CharacterController \<Rightarrow> 's CharacterController" where
  "initLpc manager sheetPrefix frameSize sc anims c =
     c\<lparr> lpcManager := Some manager, lpcSheetPrefix := sheetPrefix, lpcFrameSize := frameSize,
        lpcScale := sc, lpcBaseAnims := map_of (rev anims),
        lpcAnimator :=
          Some (LpcAnimator_play ''idle''
                  (fold (\<lambda>(name, def). defineAnimation name
                                          (def\<lparr> lpc_sheet := sheetPrefix @ lpc_sheet def \<rparr>))
                        anims LpcAnimator_new)) \<rparr>"

definition useLpc :: "'s CharacterController \<Rightarrow> bool" where
  "useLpc c = (lpcManager c = Some True \<and> lpcAnimator c \<noteq> None)"

definition setActionPositions ::
  "(AnimationState \<rightharpoonup> Point) \<Rightarrow> 's CharacterController \<Rightarrow> 's CharacterController" where
  "setActionPositions positions c = c\<lparr> actionPositions := positions \<rparr>"

definition playLpcWalk :: "'s CharacterController \<Rightarrow> 's CharacterController" where
  "playLpcWalk c =
     (case lpcAnimator c of
        None \<Rightarrow> c
      | Some a \<Rightarrow>
          let walkKey = (if facing c = left then ''exit'' else ''enter'')
          in c\<lparr> lpcAnimator := Some (LpcAnimator_play walkKey a) \<rparr>)"

definition playLpcState :: "AnimationState \<Rightarrow> 's CharacterController \<Rightarrow> 's CharacterController" where
  "playLpcState st c =
     (case lpcAnimator c of
        None \<Rightarrow> c
      | Some a \<Rightarrow> c\<lparr> lpcAnimator := Some (LpcAnimator_play (stateName st) a) \<rparr>)"

text \<open>The end of \<^verbatim>\<open>setState\<close>, and the two arrival branches of \<^verbatim>\<open>update\<close>.\<close>

definition playState :: "AnimationState \<Rightarrow> 's CharacterController \<Rightarrow> 's CharacterController" where
  "playState st c =
     playLpcState st
       (c\<lparr> walking := False, animator := AnimationController_play (stateName st) (animator c) \<rparr>)"

definition arrive :: "'s CharacterController \<Rightarrow> 's CharacterController" where
  "arrive c =
     playState (currentState c)
       (c\<lparr> position := (position c)\<lparr> x := x (targetPosition c), y := y (targetPosition c) \<rparr> \<rparr>)"

definition faceAlong :: "real \<Rightarrow> 's CharacterController \<Rightarrow> 's CharacterController" where
  "faceAlong dx c = (if dx \<noteq> 0 then c\<lparr> facing := (if dx > 0 then right else left) \<rparr> else c)"

definition setState :: "AnimationState \<Rightarrow> 's CharacterController \<Rightarrow> 's CharacterController" where
  "setState st c =
     (let c1 = c\<lparr> currentState := st \<rparr>
      in case actionPositions c1 st of
           None \<Rightarrow> playState st c1
         | Some target \<Rightarrow>
             let c2 = c1\<lparr> targetPosition := target \<rparr>;
                 dx = x (targetPosition c2) - x (position c2);
                 dy = y (targetPosition c2) - y (position c2);
                 dist = sqrt (dx * dx + dy * dy)
             in if dist > ARRIVE_THRESHOLD
                then playLpcWalk
                       ((faceAlong dx (c2\<lparr> walking := True \<rparr>))
                          \<lparr> animator := AnimationController_play ''walk'' (animator c2) \<rparr>)
                else playState st c2)"

text \<open>The first half of \<^verbatim>\<open>update\<close>: the walk. The second half advances the two animators.\<close>

definition walkStep :: "real \<Rightarrow> 's CharacterController \<Rightarrow> 's CharacterController" where
  "walkStep dt c =
     (if walking c then
        let dx = x (targetPosition c) - x (position c);
            dy = y (targetPosition c) - y (position c);
            dist = sqrt (dx * dx + dy * dy)
        in if dist \<le> ARRIVE_THRESHOLD then arrive c
           else
             let step = WALK_SPEED * dt
             in if step \<ge> dist then arrive c
                else
                  faceAlong dx
                    (c\<lparr> position := (position c)\<lparr> x := x (position c) + (dx / dist) * step,
                                                 y := y (position c) + (dy / dist) * step \<rparr> \<rparr>)
      else c)"

definition CharacterController_update ::
  "real \<Rightarrow> 's CharacterController \<Rightarrow> 's CharacterController option" where
  "CharacterController_update dt c =
     (let c1 = walkStep dt c
      in case AnimationController_update dt (animator c1) of
           None \<Rightarrow> None
         | Some an \<Rightarrow>
             Some (c1\<lparr> animator := an,
                       lpcAnimator := map_option (LpcAnimator_update dt) (lpcAnimator c1) \<rparr>))"

fun CharacterController_updates ::
  "real list \<Rightarrow> 's CharacterController \<Rightarrow> 's CharacterController option" where
  "CharacterController_updates [] c = Some c"
| "CharacterController_updates (dt # dts) c =
     (case CharacterController_update dt c of
        None \<Rightarrow> None
      | Some c' \<Rightarrow> CharacterController_updates dts c')"

definition distanceToTarget :: "'s CharacterController \<Rightarrow> real" where
  "distanceToTarget c =
     sqrt ((x (targetPosition c) - x (position c)) * (x (targetPosition c) - x (position c))
         + (y (targetPosition c) - y (position c)) * (y (targetPosition c) - y (position c)))"

chapter \<open>Properties\<close>

section \<open>SceneTransition\<close>

lemmas durations =
  FADE_OUT_DURATION_def TITLE_DISPLAY_DURATION_def FADE_IN_DURATION_def
  DEATH_FLASH_DURATION_def DEATH_TEXT_DURATION_def DEATH_HOLD_DURATION_def
  VICTORY_BANNER_DURATION_def VICTORY_HOLD_DURATION_def

lemmas transition_defs =
  SceneTransition_update_def advancePhase_def setPhase_def endPhase_def callOnComplete_def

lemma updates_snoc_none:
  "phase (state T) = none \<Longrightarrow> updates dts T = T"
  by (induction dts) (simp_all add: SceneTransition_update_def)






text \<open>
  Claim C1. Starting the scene entry should put the machine into \<open>fade_out\<close> and updates should
  then visit \<open>fade_out\<close>, \<open>title_display\<close>, \<open>fade_in\<close>, \<open>none\<close>. The source starts the entry in
  \<open>title_display\<close>: the fade-out its own comments announce is never entered, and a run visits
  \<open>title_display\<close>, \<open>fade_in\<close>, \<open>none\<close> only.
\<close>

theorem startSceneEntry_skips_fade_out:
  "phase (state (startSceneEntry sceneName gameName cb SceneTransition_new)) = title_display
   \<and> phases [1.5, 0.5] (startSceneEntry sceneName gameName cb SceneTransition_new)
       = [title_display, fade_in, none]"
  by (simp add: startSceneEntry_def SceneTransition_new_def transition_defs durations Let_def
           split: option.splits)




text \<open>
  Claim C5, as stated, fails at the last phase change: the change into \<open>none\<close> leaves \<open>elapsed\<close>
  at the time the phase had run for.
\<close>

theorem elapsed_kept_at_none:
  "phase (state (updates [1.5] (startSceneEntry ''Bonfire'' ''Dark Souls'' None SceneTransition_new))) = fade_in
   \<and> phase (state (updates [1.5, 0.5] (startSceneEntry ''Bonfire'' ''Dark Souls'' None SceneTransition_new))) = none
   \<and> elapsed (state (updates [1.5, 0.5] (startSceneEntry ''Bonfire'' ''Dark Souls'' None SceneTransition_new))) \<noteq> 0"
  by (simp add: startSceneEntry_def SceneTransition_new_def transition_defs durations Let_def)

text \<open>
  Claim C5, amended. An \<^verbatim>\<open>update\<close> call that changes the phase into a phase other than \<open>none\<close>
  leaves \<open>elapsed\<close> at 0; a call that changes the phase into \<open>none\<close> leaves \<open>elapsed\<close> at the
  accumulated time of the phase it ends; and at \<open>none\<close> no \<^verbatim>\<open>update\<close> call changes anything.
\<close>

theorem elapsed_reset_and_terminal:
  "(phase (state (SceneTransition_update dt T)) \<noteq> phase (state T)
      \<and> phase (state (SceneTransition_update dt T)) \<noteq> none
      \<longrightarrow> elapsed (state (SceneTransition_update dt T)) = 0)
   \<and> (phase (state (SceneTransition_update dt T)) \<noteq> phase (state T)
      \<and> phase (state (SceneTransition_update dt T)) = none
      \<longrightarrow> elapsed (state (SceneTransition_update dt T)) = elapsed (state T) + dt)
   \<and> (phase (state T) = none \<longrightarrow> updates dts T = T)"
  by (cases "phase (state T)")
     (simp_all add: transition_defs updates_snoc_none Let_def split: option.splits)

theorem elapsed_reset_and_terminal_witness:
  "phase (state (SceneTransition_update 0.3 (startDeath ''YOU DIED'' None SceneTransition_new)))
     = death_text
   \<and> elapsed (state (SceneTransition_update 0.3 (startDeath ''YOU DIED'' None SceneTransition_new)))
     = 0
   \<and> updates [0.1, 5] (SceneTransition_new :: nat SceneTransition) = SceneTransition_new"
  using elapsed_reset_and_terminal
          [of "0.3" "startDeath ''YOU DIED'' None (SceneTransition_new :: nat SceneTransition)"]
        elapsed_reset_and_terminal
          [of 0 "SceneTransition_new :: nat SceneTransition" "[0.1, 5]"]
  by (simp add: startDeath_def SceneTransition_new_def transition_defs durations)

section \<open>Camera\<close>

lemma resize_scale_pos:
  assumes "0 < worldWidth c" "0 < worldHeight c" "0 < vw" "0 < vh"
  shows "0 < scale (resize vw vh c)"
proof -
  let ?raw = "min (vw / worldWidth c) (vh / worldHeight c)"
  have raw: "0 < ?raw" using assms by simp
  have "scale (resize vw vh c) = (if ?raw \<ge> 1 then max 1 (of_int \<lfloor>?raw\<rfloor>) else ?raw)"
    by (simp add: resize_def Let_def)
  with raw show ?thesis by (simp add: max_def)
qed

lemma round_trip_error:
  fixes s :: real
  assumes "0 < s"
  shows "\<bar>(of_int (round (w * s + off)) - off) / s - w\<bar> \<le> 1 / (2 * s)"
proof -
  have "(of_int (round (w * s + off)) - off) / s - w = (of_int (round (w * s + off)) - (w * s + off)) / s"
    using assms by (simp add: field_simps)
  moreover have "\<bar>of_int (round (w * s + off)) - (w * s + off)\<bar> \<le> 1 / 2"
    by (rule of_int_round_abs_le)
  ultimately show ?thesis
    using assms by (simp add: field_simps)
qed

text \<open>
  Claim C7. After \<^verbatim>\<open>resize\<close> with a positive viewport (and a positive world size), the scale is
  positive and \<^verbatim>\<open>screenToWorld\<close> of \<^verbatim>\<open>worldToScreen\<close> of a point gives the point back up to
  the rounding of \<^verbatim>\<open>worldToScreen\<close>: each coordinate is off by half a screen pixel at most,
  which is \<open>1 / (2 * scale)\<close> world units. This holds for every point, inside the world
  rectangle or not.
\<close>

theorem screenToWorld_worldToScreen:
  assumes "0 < worldWidth c0" "0 < worldHeight c0" "0 < vw" "0 < vh"
    and "c = resize vw vh c0"
    and "s = worldToScreen c wx wy"
  shows "0 < scale c
       \<and> \<bar>x (screenToWorld c (x s) (y s)) - wx\<bar> \<le> 1 / (2 * scale c)
       \<and> \<bar>y (screenToWorld c (x s) (y s)) - wy\<bar> \<le> 1 / (2 * scale c)"
proof -
  have pos: "0 < scale c" using assms resize_scale_pos by simp
  show ?thesis
    using pos round_trip_error [OF pos] assms(6)
    by (simp add: screenToWorld_def worldToScreen_def)
qed

theorem screenToWorld_worldToScreen_witness:
  "scale (resize 1000 700 (Camera_new WORLD_WIDTH WORLD_HEIGHT)) = 2
   \<and> offsetX (resize 1000 700 (Camera_new WORLD_WIDTH WORLD_HEIGHT)) = 116
   \<and> worldToScreen (resize 1000 700 (Camera_new WORLD_WIDTH WORLD_HEIGHT)) 10.3 20.2
       = \<lparr> x = 137, y = 174 \<rparr>
   \<and> \<bar>x (screenToWorld (resize 1000 700 (Camera_new WORLD_WIDTH WORLD_HEIGHT)) 137 174) - 10.3\<bar>
       \<le> 1 / 4"
  using screenToWorld_worldToScreen
          [of "Camera_new WORLD_WIDTH WORLD_HEIGHT" 1000 700
              "resize 1000 700 (Camera_new WORLD_WIDTH WORLD_HEIGHT)"
              "worldToScreen (resize 1000 700 (Camera_new WORLD_WIDTH WORLD_HEIGHT)) 10.3 20.2"
              "10.3" "20.2"]
  by (simp add: Camera_new_def WORLD_WIDTH_def WORLD_HEIGHT_def resize_def worldToScreen_def
                screenToWorld_def Let_def round_def)

section \<open>GameLoop\<close>

lemma tick_calls:
  "(cb, dt) \<in> set (calls (tick timestamp g)) \<Longrightarrow> (cb, dt) \<in> set (calls g) \<or> dt \<le> 0.1"
  by (auto simp: tick_def Let_def requestAnimationFrame_def split: if_splits)

lemma loopStep_calls:
  "(cb, dt) \<in> set (calls (loopStep e g)) \<Longrightarrow> (cb, dt) \<in> set (calls g) \<or> dt \<le> 0.1"
  by (cases e)
     (auto simp: start_def stop_def onUpdate_def onRender_def offUpdate_def offRender_def
                 handleVisibility_def requestAnimationFrame_def
           dest: tick_calls split: if_splits)

lemma loopRun_calls:
  "(cb, dt) \<in> set (calls (loopRun es g)) \<Longrightarrow> (cb, dt) \<in> set (calls g) \<or> dt \<le> 0.1"
proof (induction es arbitrary: g)
  case Nil
  then show ?case by simp
next
  case (Cons e es)
  then have "(cb, dt) \<in> set (calls (loopStep e g)) \<or> dt \<le> 0.1" by simp
  then show ?case by (auto dest: loopStep_calls)
qed

text \<open>
  Claim C8. Whatever happens to a new loop (starts, stops, registrations, visibility changes
  and ticks with any timestamps), every \<^verbatim>\<open>dt\<close> it has passed to an update or render callback is
  at most 0.1 seconds.
\<close>

theorem tick_dt_clamped:
  "(cb, dt) \<in> set (calls (loopRun es GameLoop_new)) \<Longrightarrow> dt \<le> 0.1"
  using loopRun_calls [of cb dt es GameLoop_new] by (simp add: GameLoop_new_def)

theorem tick_dt_clamped_witness:
  "calls (loopRun [Start, OnUpdate (1::nat), OnRender 2, Tick 1000, Tick 1016, Tick 9000] GameLoop_new)
     = [(1, 0.016), (2, 0.016), (1, 0.1), (2, 0.1)]
   \<and> (0.1::real) \<le> 0.1"
  using tick_dt_clamped [of "1::nat" "0.1" "[Start, OnUpdate (1::nat), OnRender 2, Tick 1000, Tick 1016, Tick 9000]"]
  by (simp add: GameLoop_new_def start_def onUpdate_def onRender_def tick_def
                requestAnimationFrame_def Let_def)

section \<open>AnimationController and LpcAnimator\<close>

text \<open>The loop of \<^verbatim>\<open>update\<close>, one round at a time; with a positive frame duration it returns.\<close>

lemma stepFrames_done:
  "ac_elapsed c < frameDuration anim \<Longrightarrow> stepFrames anim c = Some c"
  by (subst stepFrames.simps) simp

lemma stepFrames_step:
  assumes "ac_elapsed c \<ge> frameDuration anim"
  shows "stepFrames anim c =
     (let c1 = c\<lparr> ac_elapsed := ac_elapsed c - frameDuration anim,
                   currentFrameIndex := Suc (currentFrameIndex c) \<rparr>
      in if currentFrameIndex c1 \<ge> length (frames anim) then
           if loop anim then stepFrames anim (c1\<lparr> currentFrameIndex := 0 \<rparr>)
           else
             let c2 = c1\<lparr> currentFrameIndex := length (frames anim) - 1, finished := True \<rparr>
             in if truthy (pendingAnim c2)
                then Some (switchTo (the (pendingAnim c2)) (c2\<lparr> pendingAnim := None \<rparr>))
                else Some c2
         else stepFrames anim c1)"
  using assms by (subst stepFrames.simps) simp

lemma animations_switchTo: "animations (switchTo n c) = animations c"
  by (simp add: switchTo_def)

lemma stepFrames_total:
  assumes "0 < frameDuration anim"
  shows "\<exists>c'. stepFrames anim c = Some c' \<and> animations c' = animations c"
proof (induction "nat \<lfloor>ac_elapsed c / frameDuration anim\<rfloor>" arbitrary: c rule: less_induct)
  case less
  show ?case
  proof (cases "ac_elapsed c < frameDuration anim")
    case True
    then show ?thesis by (simp add: stepFrames_done)
  next
    case False
    then have ge: "ac_elapsed c \<ge> frameDuration anim" by simp
    have "1 \<le> ac_elapsed c / frameDuration anim" using ge assms by simp
    then have one: "1 \<le> \<lfloor>ac_elapsed c / frameDuration anim\<rfloor>" by linarith
    have "(ac_elapsed c - frameDuration anim) / frameDuration anim
            = ac_elapsed c / frameDuration anim - 1"
      using assms by (simp add: field_simps)
    then have dec: "nat \<lfloor>(ac_elapsed c - frameDuration anim) / frameDuration anim\<rfloor>
                      < nat \<lfloor>ac_elapsed c / frameDuration anim\<rfloor>"
      using one by simp
    let ?c1 = "c\<lparr> ac_elapsed := ac_elapsed c - frameDuration anim,
                   currentFrameIndex := Suc (currentFrameIndex c) \<rparr>"
    have r1: "\<exists>c'. stepFrames anim ?c1 = Some c' \<and> animations c' = animations c"
      using less [of ?c1] dec by simp
    have r2: "\<exists>c'. stepFrames anim (?c1\<lparr> currentFrameIndex := 0 \<rparr>) = Some c'
                   \<and> animations c' = animations c"
      using less [of "?c1\<lparr> currentFrameIndex := 0 \<rparr>"] dec by simp
    show ?thesis
      using r1 r2 by (simp add: stepFrames_step [OF ge] Let_def animations_switchTo)
  qed
qed

lemma AnimationController_update_total:
  assumes "\<forall>n d. animations c n = Some d \<longrightarrow> 0 < frameDuration d"
  shows "\<exists>c'. AnimationController_update dt c = Some c' \<and> animations c' = animations c"
proof (cases "\<not> truthy (currentAnim c) \<or> finished c")
  case True
  then show ?thesis by (simp add: AnimationController_update_def)
next
  case False
  show ?thesis
  proof (cases "animations c (the (currentAnim c))")
    case None
    then show ?thesis using False by (simp add: AnimationController_update_def)
  next
    case (Some d)
    then have "0 < frameDuration d" using assms by blast
    from stepFrames_total [OF this, of "c\<lparr> ac_elapsed := ac_elapsed c + dt \<rparr>"]
    show ?thesis using False Some by (auto simp: AnimationController_update_def)
  qed
qed

text \<open>
  Claim C3. Both players should step one frame per whole frame duration consumed, several in
  one call when \<open>dt\<close> spans several. \<^verbatim>\<open>AnimationController.update\<close> does, with a \<^verbatim>\<open>while\<close> loop;
  \<^verbatim>\<open>LpcAnimator.update\<close> tests the elapsed time once and steps one frame at most: on the walk
  sheet (9 frames of 0.1 s, looping) one call with \<open>dt = 0.3\<close> leaves it at frame 1, where the
  controller is at frame 3.
\<close>

theorem LpcAnimator_update_one_frame:
  "currentFrame
     (LpcAnimator_update 0.3
        (LpcAnimator_play ''walk''
           (defineAnimation ''walk''
              \<lparr> lpc_sheet = ''walk'', direction = Right, startFrame = 0, lpc_frameCount = 9,
                lpc_frameDuration = 0.1, lpc_loop = True \<rparr>
              LpcAnimator_new))) = 1
   \<and> animTime
       (LpcAnimator_update 0.3
          (LpcAnimator_play ''walk''
             (defineAnimation ''walk''
                \<lparr> lpc_sheet = ''walk'', direction = Right, startFrame = 0, lpc_frameCount = 9,
                  lpc_frameDuration = 0.1, lpc_loop = True \<rparr>
                LpcAnimator_new))) = 0.2"
  by (simp add: LpcAnimator_update_def LpcAnimator_play_def defineAnimation_def
                LpcAnimator_new_def Let_def)

text \<open>The procedural controller on the same animation and the same call.\<close>

lemma AnimationController_update_three_frames:
  "map_option currentFrameIndex
     (AnimationController_update 0.3
        (AnimationController_play ''walk''
           (AnimationController_new Map.empty
              [''walk'' \<mapsto> \<lparr> frames = [''w0'', ''w1'', ''w2'', ''w3'', ''w4'', ''w5'', ''w6'', ''w7'', ''w8''],
                              frameDuration = 0.1, loop = True \<rparr>]))) = Some 3"
  by (simp add: AnimationController_update_def AnimationController_play_def
                AnimationController_new_def switchTo_def truthy_def
                stepFrames_step stepFrames_done Let_def)

text \<open>One update of a non-looping animation whose elapsed time is 0, by one frame duration.\<close>

lemma update_one_frame:
  assumes "currentAnim c = Some name" "name \<noteq> []" "animations c name = Some d"
    and "frames d \<noteq> []" "\<not> loop d" "0 < frameDuration d"
    and "\<not> finished c" "ac_elapsed c = 0" "pendingAnim c = None"
  shows "AnimationController_update (frameDuration d) c =
           Some (if Suc (currentFrameIndex c) \<ge> length (frames d)
                 then c\<lparr> currentFrameIndex := length (frames d) - 1, finished := True \<rparr>
                 else c\<lparr> currentFrameIndex := Suc (currentFrameIndex c) \<rparr>)"
  using assms
  by (simp add: AnimationController_update_def truthy_def stepFrames_step stepFrames_done Let_def)

lemma update_finished: "finished c \<Longrightarrow> AnimationController_update dt c = Some c"
  by (simp add: AnimationController_update_def)

lemma updates_finished: "finished c \<Longrightarrow> AnimationController_updates dts c = Some c"
  by (induction dts) (simp_all add: update_finished)

lemma AnimationController_updates_append:
  "AnimationController_updates (xs @ ys) c =
     (case AnimationController_updates xs c of
        None \<Rightarrow> None
      | Some c' \<Rightarrow> AnimationController_updates ys c')"
  by (induction xs arbitrary: c) (simp_all split: option.splits)

lemma updates_frames:
  assumes "currentAnim c = Some name" "name \<noteq> []" "animations c name = Some d"
    and "frames d \<noteq> []" "\<not> loop d" "0 < frameDuration d"
    and "\<not> finished c" "ac_elapsed c = 0" "pendingAnim c = None"
    and "currentFrameIndex c + k < length (frames d)"
  shows "AnimationController_updates (replicate k (frameDuration d)) c
           = Some (c\<lparr> currentFrameIndex := currentFrameIndex c + k \<rparr>)"
  using assms
proof (induction k arbitrary: c)
  case 0
  then show ?case by simp
next
  case (Suc k)
  let ?c1 = "c\<lparr> currentFrameIndex := Suc (currentFrameIndex c) \<rparr>"
  have one: "AnimationController_update (frameDuration d) c = Some ?c1"
    using update_one_frame [OF Suc.prems(1-9)] Suc.prems(10) by simp
  have "AnimationController_updates (replicate k (frameDuration d)) ?c1
          = Some (?c1\<lparr> currentFrameIndex := currentFrameIndex ?c1 + k \<rparr>)"
    using Suc.prems by (intro Suc.IH) simp_all
  with one show ?case by simp
qed

text \<open>
  Claim C9. A new controller plays a non-looping animation of 6 frames of 0.1 s (under a name
  that is not the empty string, which the source takes for no animation) and is updated in
  steps of 0.1 s: it is not finished after fewer than 6 updates, it is finished after the 6th
  and after any further updates, and from the 6th update on \<^verbatim>\<open>getCurrentFrame\<close> is the sprite
  of the last frame.
\<close>

theorem finished_after_sixth_update:
  assumes "anims name = Some d" "name \<noteq> []"
    and "length (frames d) = 6" "frameDuration d = 0.1" "\<not> loop d"
    and "c0 = AnimationController_play name (AnimationController_new sh anims)"
  shows "(\<forall>k<6. map_option AnimationController_isFinished
                  (AnimationController_updates (replicate k 0.1) c0) = Some False)
       \<and> map_option AnimationController_isFinished
           (AnimationController_updates (replicate 6 0.1 @ dts) c0) = Some True
       \<and> map_option getCurrentFrame
           (AnimationController_updates (replicate 6 0.1 @ dts) c0) = Some (sh (frames d ! 5))"
proof -
  have c0: "c0 = (AnimationController_new sh anims)\<lparr> currentAnim := Some name \<rparr>"
    using assms(1,6)
    by (simp add: AnimationController_play_def AnimationController_new_def switchTo_def
                  truthy_def)
  have pre: "currentAnim c0 = Some name" "animations c0 name = Some d" "frames d \<noteq> []"
    "0 < frameDuration d" "\<not> finished c0" "ac_elapsed c0 = 0" "pendingAnim c0 = None"
    "currentFrameIndex c0 = 0" "sheet c0 = sh"
    using assms(1,3,4) by (auto simp: c0 AnimationController_new_def)
  have run: "AnimationController_updates (replicate k 0.1) c0
               = Some (c0\<lparr> currentFrameIndex := k \<rparr>)" if "k < 6" for k
    using updates_frames [OF pre(1) assms(2) pre(2,3) assms(5) pre(4-7), of k] that assms(3,4) pre(8)
    by simp
  have before: "\<forall>k<6. map_option AnimationController_isFinished
                  (AnimationController_updates (replicate k 0.1) c0) = Some False"
    using run pre(5) by (simp add: AnimationController_isFinished_def)
  let ?c5 = "c0\<lparr> currentFrameIndex := 5 \<rparr>"
  let ?c6 = "?c5\<lparr> finished := True \<rparr>"
  have "AnimationController_update (frameDuration d) ?c5
          = Some (?c5\<lparr> currentFrameIndex := length (frames d) - 1, finished := True \<rparr>)"
    using update_one_frame [of ?c5 name d] pre assms(2,3,5) by simp
  then have sixth: "AnimationController_update 0.1 ?c5 = Some ?c6"
    using assms(3,4) by simp
  have "replicate 6 (0.1::real) = replicate 5 0.1 @ [0.1]"
    by (simp add: numeral_eq_Suc)
  then have "AnimationController_updates (replicate 6 0.1) c0 = Some ?c6"
    using run [of 5] sixth by (simp add: AnimationController_updates_append)
  then have after: "AnimationController_updates (replicate 6 0.1 @ dts) c0 = Some ?c6"
    by (simp add: AnimationController_updates_append updates_finished)
  have frame: "getCurrentFrame ?c6 = sh (frames d ! 5)"
    using pre assms(2,3) by (simp add: getCurrentFrame_def truthy_def)
  show ?thesis
    using before after frame by (simp add: AnimationController_isFinished_def)
qed

theorem finished_after_sixth_update_witness:
  "map_option AnimationController_isFinished
     (AnimationController_updates (replicate 5 0.1)
        (AnimationController_play ''victory''
           (AnimationController_new [''v5'' \<mapsto> (5::nat)]
              [''victory'' \<mapsto> \<lparr> frames = [''v0'', ''v1'', ''v2'', ''v3'', ''v4'', ''v5''],
                                  frameDuration = 0.1, loop = False \<rparr>]))) = Some False
   \<and> map_option AnimationController_isFinished
     (AnimationController_updates (replicate 6 0.1 @ [0.1, 0.25])
        (AnimationController_play ''victory''
           (AnimationController_new [''v5'' \<mapsto> (5::nat)]
              [''victory'' \<mapsto> \<lparr> frames = [''v0'', ''v1'', ''v2'', ''v3'', ''v4'', ''v5''],
                                  frameDuration = 0.1, loop = False \<rparr>]))) = Some True
   \<and> map_option getCurrentFrame
     (AnimationController_updates (replicate 6 0.1 @ [0.1, 0.25])
        (AnimationController_play ''victory''
           (AnimationController_new [''v5'' \<mapsto> (5::nat)]
              [''victory'' \<mapsto> \<lparr> frames = [''v0'', ''v1'', ''v2'', ''v3'', ''v4'', ''v5''],
                                  frameDuration = 0.1, loop = False \<rparr>]))) = Some (Some 5)"
proof -
  let ?d = "\<lparr> frames = [''v0'', ''v1'', ''v2'', ''v3'', ''v4'', ''v5''],
              frameDuration = 0.1, loop = False \<rparr>"
  let ?anims = "[''victory'' \<mapsto> ?d]"
  let ?sh = "[''v5'' \<mapsto> (5::nat)]"
  have h: "?anims ''victory'' = Some ?d" "''victory'' \<noteq> []" "length (frames ?d) = 6"
    "frameDuration ?d = 0.1" "\<not> loop ?d"
    by simp_all
  note r = finished_after_sixth_update
             [of ?anims "''victory''" ?d
                 "AnimationController_play ''victory'' (AnimationController_new ?sh ?anims)"
                 ?sh "[0.1, 0.25]", OF h refl]
  from r have "\<forall>k<6. map_option AnimationController_isFinished
       (AnimationController_updates (replicate k 0.1)
          (AnimationController_play ''victory'' (AnimationController_new ?sh ?anims))) = Some False"
    by (rule conjunct1)
  then have "map_option AnimationController_isFinished
       (AnimationController_updates (replicate 5 0.1)
          (AnimationController_play ''victory'' (AnimationController_new ?sh ?anims))) = Some False"
    by simp
  with r show ?thesis by simp
qed

section \<open>ParticleSystem\<close>

lemma findInactive_None: "findInactive xs = None \<longleftrightarrow> (\<forall>p\<in>set xs. active p)"
  by (induction xs) auto

lemma findInactive_Some:
  "findInactive xs = Some i \<Longrightarrow> i < length xs \<and> \<not> active (xs ! i)"
  by (induction xs arbitrary: i) (auto split: if_splits)

lemma filter_active_full: "length (filter active xs) = length xs \<longleftrightarrow> (\<forall>p\<in>set xs. active p)"
proof (induction xs)
  case Nil
  then show ?case by simp
next
  case (Cons a xs)
  have "length (filter active xs) \<noteq> Suc (length xs)"
    using length_filter_le [of active xs] by linarith
  with Cons show ?case by auto
qed

lemma filter_active_update:
  "i < length xs \<Longrightarrow> \<not> active (xs ! i) \<Longrightarrow> active p
   \<Longrightarrow> length (filter active (xs[i := p])) = Suc (length (filter active xs))"
  by (induction xs arbitrary: i) (auto split: nat.splits)

lemma spawnParticle_fields:
  "emitters (spawnParticle cfg ps) = emitters ps"
  "accumulators (spawnParticle cfg ps) = accumulators ps"
  "length (pool (spawnParticle cfg ps)) = length (pool ps)"
  "random (spawnParticle cfg ps) = random ps"
  by (simp_all add: spawnParticle_def Let_def split: option.splits)

lemma activeCount_le: "activeCount ps \<le> length (pool ps)"
  by (simp add: activeCount_def)

lemma activeCount_spawnParticle:
  "activeCount (spawnParticle cfg ps) = min (length (pool ps)) (Suc (activeCount ps))"
proof (cases "findInactive (pool ps)")
  case None
  then have "activeCount ps = length (pool ps)"
    by (simp add: activeCount_def findInactive_None filter_active_full)
  with None show ?thesis by (simp add: spawnParticle_def)
next
  case (Some i)
  note slot = findInactive_Some [OF Some]
  then have "\<not> (\<forall>p\<in>set (pool ps). active p)" using nth_mem by blast
  then have "activeCount ps \<noteq> length (pool ps)"
    by (simp add: activeCount_def filter_active_full)
  then have lt: "activeCount ps < length (pool ps)" using activeCount_le [of ps] by simp
  have "activeCount (spawnParticle cfg ps) = Suc (activeCount ps)"
    using Some slot by (simp add: spawnParticle_def activeCount_def Let_def filter_active_update)
  with lt show ?thesis by simp
qed

text \<open>\<^verbatim>\<open>maxParticles\<close> is never read.\<close>

lemma spawnParticle_ignores_maxParticles:
  "spawnParticle (maxParticles_update f cfg) ps = spawnParticle cfg ps"
  by (simp add: spawnParticle_def Let_def split: option.splits)

lemma burst_ignores_maxParticles: "burst (maxParticles_update f cfg) n ps = burst cfg n ps"
  by (induction n arbitrary: ps) (simp_all add: spawnParticle_ignores_maxParticles)

lemma activeCount_burst:
  "activeCount (burst cfg n ps) = min (length (pool ps)) (activeCount ps + n)"
proof (induction n arbitrary: ps)
  case 0
  then show ?case using activeCount_le [of ps] by simp
next
  case (Suc n)
  then show ?case
    by (simp add: activeCount_spawnParticle spawnParticle_fields)
qed

text \<open>The emission loop of one emitter.\<close>

lemma emitWhile_frame:
  "emitters (emitWhile cfg i ps) = emitters ps
   \<and> length (pool (emitWhile cfg i ps)) = length (pool ps)
   \<and> length (accumulators (emitWhile cfg i ps)) = length (accumulators ps)
   \<and> (\<forall>j. j \<noteq> i \<longrightarrow> accumulators (emitWhile cfg i ps) ! j = accumulators ps ! j)
   \<and> activeCount ps \<le> activeCount (emitWhile cfg i ps)"
proof (induction cfg i ps rule: emitWhile.induct)
  case (1 config i ps)
  show ?case
  proof (cases "i < length (accumulators ps) \<and> accumulators ps ! i \<ge> 1")
    case True
    let ?ps1 = "ps\<lparr> accumulators := (accumulators ps)[i := accumulators ps ! i - 1] \<rparr>"
    have ac: "activeCount ps \<le> activeCount (spawnParticle config ?ps1)"
      using activeCount_le [of ps] by (simp add: activeCount_spawnParticle) (simp add: activeCount_def)
    have eq: "emitWhile config i ps = emitWhile config i (spawnParticle config ?ps1)"
      using True by (subst emitWhile.simps) simp
    show ?thesis
      using "1.IH" [OF True] ac unfolding eq by (simp add: spawnParticle_fields)
  next
    case False
    then have "emitWhile config i ps = ps" by (subst emitWhile.simps) auto
    then show ?thesis by simp
  qed
qed

lemma emitWhile_count:
  assumes "i < length (accumulators ps)" "0 \<le> accumulators ps ! i"
  shows "accumulators (emitWhile cfg i ps) = (accumulators ps)[i := frac (accumulators ps ! i)]
       \<and> activeCount (emitWhile cfg i ps)
           = min (length (pool ps)) (activeCount ps + nat \<lfloor>accumulators ps ! i\<rfloor>)"
  using assms
proof (induction cfg i ps rule: emitWhile.induct)
  case (1 config i ps)
  let ?v = "accumulators ps ! i"
  show ?case
  proof (cases "?v \<ge> 1")
    case True
    let ?ps1 = "ps\<lparr> accumulators := (accumulators ps)[i := ?v - 1] \<rparr>"
    let ?ps2 = "spawnParticle config ?ps1"
    have eq: "emitWhile config i ps = emitWhile config i ?ps2"
      using True "1.prems" by (subst emitWhile.simps) simp
    have acc2: "accumulators ?ps2 = (accumulators ps)[i := ?v - 1]"
      by (simp add: spawnParticle_fields)
    have v2: "accumulators ?ps2 ! i = ?v - 1" using "1.prems" by (simp add: acc2)
    have ih: "accumulators (emitWhile config i ?ps2) = (accumulators ?ps2)[i := frac (?v - 1)]
       \<and> activeCount (emitWhile config i ?ps2)
           = min (length (pool ?ps2)) (activeCount ?ps2 + nat \<lfloor>?v - 1\<rfloor>)"
      using "1.IH" [of] True "1.prems" v2 acc2 by simp
    have fr: "frac (?v - 1) = frac ?v" by (simp add: frac_def)
    have fl: "Suc (nat \<lfloor>?v - 1\<rfloor>) = nat \<lfloor>?v\<rfloor>" using True by simp linarith
    have ac2: "activeCount ?ps2 = min (length (pool ps)) (Suc (activeCount ps))"
      by (simp add: activeCount_spawnParticle) (simp add: activeCount_def)
    have len2: "length (pool ?ps2) = length (pool ps)" by (simp add: spawnParticle_fields)
    show ?thesis
      unfolding eq using ih fl by (simp add: acc2 fr ac2 len2)
  next
    case False
    then have eq: "emitWhile config i ps = ps" by (subst emitWhile.simps) simp
    have "frac ?v = ?v" using False "1.prems" by (simp add: frac_eq)
    moreover have "nat \<lfloor>?v\<rfloor> = 0" using False by simp
    ultimately show ?thesis using activeCount_le [of ps] by (simp add: eq)
  qed
qed

lemma activeCount_accumulators_update [simp]:
  "activeCount (ps\<lparr> accumulators := A \<rparr>) = activeCount ps"
  by (simp add: activeCount_def)

lemma emitOne_frame:
  "emitters (emitOne dt i ps) = emitters ps
   \<and> length (pool (emitOne dt i ps)) = length (pool ps)
   \<and> length (accumulators (emitOne dt i ps)) = length (accumulators ps)
   \<and> (\<forall>j. j \<noteq> i \<longrightarrow> accumulators (emitOne dt i ps) ! j = accumulators ps ! j)
   \<and> activeCount ps \<le> activeCount (emitOne dt i ps)"
  using emitWhile_frame
    [of "emitters ps ! i" i
        "ps\<lparr> accumulators := (accumulators ps)
                  [i := accumulators ps ! i + rate (emitters ps ! i) * dt] \<rparr>"]
  by (simp add: emitOne_def Let_def)

lemma emitOne_count:
  assumes "i < length (accumulators ps)"
    and "0 \<le> accumulators ps ! i + rate (emitters ps ! i) * dt"
  shows "accumulators (emitOne dt i ps) ! i
           = frac (accumulators ps ! i + rate (emitters ps ! i) * dt)
       \<and> activeCount (emitOne dt i ps)
           = min (length (pool ps))
                 (activeCount ps + nat \<lfloor>accumulators ps ! i + rate (emitters ps ! i) * dt\<rfloor>)"
  using assms emitWhile_count
    [of i "ps\<lparr> accumulators := (accumulators ps)
                  [i := accumulators ps ! i + rate (emitters ps ! i) * dt] \<rparr>"
        "emitters ps ! i"]
  by (simp add: emitOne_def Let_def)

lemma fold_emitOne_frame:
  "emitters (fold (emitOne dt) js ps) = emitters ps
   \<and> length (pool (fold (emitOne dt) js ps)) = length (pool ps)
   \<and> length (accumulators (fold (emitOne dt) js ps)) = length (accumulators ps)
   \<and> (\<forall>j. j \<notin> set js \<longrightarrow> accumulators (fold (emitOne dt) js ps) ! j = accumulators ps ! j)
   \<and> activeCount ps \<le> activeCount (fold (emitOne dt) js ps)"
proof (induction js arbitrary: ps)
  case Nil
  then show ?case by simp
next
  case (Cons a js)
  note one = emitOne_frame [of dt a ps]
  note rest = Cons.IH [of "emitOne dt a ps"]
  show ?case using one rest by (auto intro: le_trans)
qed

lemma emitAll_split:
  assumes "i < length (emitters ps)"
  shows "emitAll dt ps =
           fold (emitOne dt) [Suc i..<length (emitters ps)]
             (emitOne dt i (fold (emitOne dt) [0..<i] ps))"
proof -
  have "[0..<length (emitters ps)] = [0..<i] @ [i..<length (emitters ps)]"
    using assms upt_add_eq_append [of 0 i "length (emitters ps) - i"] by simp
  moreover have "[i..<length (emitters ps)] = i # [Suc i..<length (emitters ps)]"
    using assms by (simp add: upt_conv_Cons)
  ultimately show ?thesis by (simp add: emitAll_def)
qed

lemma emitAll_frame:
  "emitters (emitAll dt ps) = emitters ps"
  "length (pool (emitAll dt ps)) = length (pool ps)"
  "length (accumulators (emitAll dt ps)) = length (accumulators ps)"
  using fold_emitOne_frame [of dt "[0..<length (emitters ps)]" ps]
  by (simp_all add: emitAll_def)

lemma update_frame:
  "emitters (ParticleSystem_update dt ps) = emitters ps"
  "length (pool (ParticleSystem_update dt ps)) = length (pool ps)"
  "accumulators (ParticleSystem_update dt ps) = accumulators (emitAll dt ps)"
  by (simp_all add: ParticleSystem_update_def Let_def emitAll_frame)

text \<open>
  One call: the emitter \<open>i\<close> spawns one particle per whole unit of its accumulator and keeps
  the fraction, as long as the pool is not full after the emission pass. The counts of this
  lemma and of the two after it are those of exact arithmetic; the rounding of the source's
  doubles can move a count that falls on a whole number by one particle.
\<close>

lemma emitter_turn:
  assumes "i < length (emitters ps)" "length (accumulators ps) = length (emitters ps)"
    and "0 \<le> accumulators ps ! i + rate (emitters ps ! i) * dt"
  shows "accumulators (emitAll dt ps) ! i = frac (accumulators ps ! i + rate (emitters ps ! i) * dt)"
    and "activeCount (emitAll dt ps) < length (pool ps)
         \<Longrightarrow> spawnedBy dt i ps = nat \<lfloor>accumulators ps ! i + rate (emitters ps ! i) * dt\<rfloor>"
proof -
  let ?ps1 = "fold (emitOne dt) [0..<i] ps"
  let ?ps2 = "emitOne dt i ?ps1"
  let ?v = "accumulators ps ! i + rate (emitters ps ! i) * dt"
  note f1 = fold_emitOne_frame [of dt "[0..<i]" ps]
  have same: "accumulators ?ps1 ! i = accumulators ps ! i" "emitters ?ps1 = emitters ps"
    "length (accumulators ?ps1) = length (accumulators ps)" "length (pool ?ps1) = length (pool ps)"
    using f1 by simp_all
  have cnt: "accumulators ?ps2 ! i = frac ?v"
    "activeCount ?ps2 = min (length (pool ps)) (activeCount ?ps1 + nat \<lfloor>?v\<rfloor>)"
    using emitOne_count [of i ?ps1 dt] assms same by simp_all
  note f3 = fold_emitOne_frame [of dt "[Suc i..<length (emitters ps)]" ?ps2]
  have all: "emitAll dt ps = fold (emitOne dt) [Suc i..<length (emitters ps)] ?ps2"
    by (rule emitAll_split [OF assms(1)])
  show "accumulators (emitAll dt ps) ! i = frac ?v"
    using f3 cnt(1) by (simp add: all)
  assume room: "activeCount (emitAll dt ps) < length (pool ps)"
  have "activeCount ?ps2 \<le> activeCount (emitAll dt ps)" using f3 by (simp add: all)
  with room have "activeCount ?ps2 < length (pool ps)" by simp
  with cnt(2) have "activeCount ?ps2 = activeCount ?ps1 + nat \<lfloor>?v\<rfloor>" by simp
  then show "spawnedBy dt i ps = nat \<lfloor>?v\<rfloor>" by (simp add: spawnedBy_def Let_def)
qed

lemma floor_carry:
  fixes a d :: real
  assumes "0 \<le> a" "0 \<le> d" "0 \<le> e"
  shows "nat \<lfloor>a + d\<rfloor> + nat \<lfloor>frac (a + d) + e\<rfloor> = nat \<lfloor>a + d + e\<rfloor>"
proof -
  have "frac (a + d) + e = (a + d + e) - of_int \<lfloor>a + d\<rfloor>" by (simp add: frac_def)
  then have "\<lfloor>frac (a + d) + e\<rfloor> = \<lfloor>a + d + e\<rfloor> - \<lfloor>a + d\<rfloor>"
    by (simp only: floor_diff_of_int)
  moreover have "0 \<le> \<lfloor>a + d\<rfloor>" using assms by simp
  moreover have "\<lfloor>a + d\<rfloor> \<le> \<lfloor>a + d + e\<rfloor>" using assms by (simp add: floor_mono)
  ultimately show ?thesis by linarith
qed

lemma spawnedOver_floor:
  assumes "i < length (emitters ps)" "length (accumulators ps) = length (emitters ps)"
    and "0 \<le> accumulators ps ! i" "accumulators ps ! i < 1"
    and "0 \<le> rate (emitters ps ! i) * dt"
    and "\<forall>k<n. activeCount (emitAll dt ((ParticleSystem_update dt ^^ k) ps)) < length (pool ps)"
  shows "spawnedOver n dt i ps
           = nat \<lfloor>accumulators ps ! i + rate (emitters ps ! i) * dt * real n\<rfloor>"
  using assms
proof (induction n arbitrary: ps)
  case 0
  then show ?case by simp
next
  case (Suc n)
  let ?a = "accumulators ps ! i"
  let ?d = "rate (emitters ps ! i) * dt"
  let ?ps' = "ParticleSystem_update dt ps"
  have v: "0 \<le> ?a + ?d" using Suc.prems by simp
  have room0: "activeCount (emitAll dt ps) < length (pool ps)"
    using Suc.prems(6) by (metis funpow_0 zero_less_Suc)
  note turn = emitter_turn [OF Suc.prems(1,2) v]
  have first: "spawnedBy dt i ps = nat \<lfloor>?a + ?d\<rfloor>" using turn(2) room0 by simp
  have acc': "accumulators ?ps' ! i = frac (?a + ?d)" using turn(1) by (simp add: update_frame)
  have room': "\<forall>k<n. activeCount (emitAll dt ((ParticleSystem_update dt ^^ k) ?ps'))
                       < length (pool ?ps')"
  proof (intro allI impI)
    fix k assume "k < n"
    then have "Suc k < Suc n" by simp
    then have "activeCount (emitAll dt ((ParticleSystem_update dt ^^ Suc k) ps)) < length (pool ps)"
      using Suc.prems(6) by blast
    then show "activeCount (emitAll dt ((ParticleSystem_update dt ^^ k) ?ps')) < length (pool ?ps')"
      by (simp add: funpow_swap1 update_frame)
  qed
  have rest: "spawnedOver n dt i ?ps'
                = nat \<lfloor>accumulators ?ps' ! i + rate (emitters ?ps' ! i) * dt * real n\<rfloor>"
    using Suc.prems(1,2,5) room' acc'
    by (intro Suc.IH) (simp_all add: update_frame emitAll_frame frac_lt_1)
  have "0 \<le> ?d * real n" using Suc.prems(5) by simp
  from floor_carry [OF Suc.prems(3) Suc.prems(5) this]
  show ?case using first rest acc' by (simp add: update_frame algebra_simps)
qed

lemma emitWhile_step:
  "i < length (accumulators ps) \<Longrightarrow> accumulators ps ! i \<ge> 1
   \<Longrightarrow> emitWhile cfg i ps
       = emitWhile cfg i
           (spawnParticle cfg
              (ps\<lparr> accumulators := (accumulators ps)[i := accumulators ps ! i - 1] \<rparr>))"
  by (subst emitWhile.simps) simp

lemma emitWhile_done:
  "\<not> (i < length (accumulators ps) \<and> accumulators ps ! i \<ge> 1) \<Longrightarrow> emitWhile cfg i ps = ps"
  by (subst emitWhile.simps) auto

lemma emitWhile_ignores_maxParticles:
  "emitWhile (maxParticles_update f cfg) i (ps\<lparr> emitters := E \<rparr>)
     = (emitWhile cfg i ps)\<lparr> emitters := E \<rparr>"
proof (induction cfg i ps rule: emitWhile.induct)
  case (1 config i ps)
  show ?case
  proof (cases "i < length (accumulators ps) \<and> accumulators ps ! i \<ge> 1")
    case True
    let ?A = "(accumulators ps)[i := accumulators ps ! i - 1]"
    let ?ps2 = "spawnParticle config (ps\<lparr> accumulators := ?A \<rparr>)"
    have sp: "spawnParticle (maxParticles_update f config)
                ((ps\<lparr> emitters := E \<rparr>)\<lparr> accumulators := ?A \<rparr>) = ?ps2\<lparr> emitters := E \<rparr>"
      by (simp add: spawnParticle_def Let_def split: option.splits)
    have "emitWhile (maxParticles_update f config) i (ps\<lparr> emitters := E \<rparr>)
            = emitWhile (maxParticles_update f config) i (?ps2\<lparr> emitters := E \<rparr>)"
      using True by (subst emitWhile.simps) (simp add: sp del: ParticleSystem.simps)
    also have "\<dots> = (emitWhile config i ?ps2)\<lparr> emitters := E \<rparr>"
      using "1.IH" True by simp
    also have "emitWhile config i ?ps2 = emitWhile config i ps"
      using True by (simp add: emitWhile_step [of i ps])
    finally show ?thesis .
  next
    case False
    then show ?thesis by (simp add: emitWhile_done)
  qed
qed

lemma emitOne_ignores_maxParticles:
  assumes "i < length (emitters ps)"
  shows "emitOne dt i (ps\<lparr> emitters := map (maxParticles_update f) (emitters ps) \<rparr>)
           = (emitOne dt i ps)\<lparr> emitters := map (maxParticles_update f) (emitters ps) \<rparr>"
proof -
  let ?E = "map (maxParticles_update f) (emitters ps)"
  let ?A = "(accumulators ps)[i := accumulators ps ! i + rate (emitters ps ! i) * dt]"
  have swap: "(ps\<lparr> emitters := ?E \<rparr>)\<lparr> accumulators := ?A \<rparr>
                = (ps\<lparr> accumulators := ?A \<rparr>)\<lparr> emitters := ?E \<rparr>"
    by simp
  have "emitOne dt i (ps\<lparr> emitters := ?E \<rparr>)
          = emitWhile (maxParticles_update f (emitters ps ! i)) i
              ((ps\<lparr> emitters := ?E \<rparr>)\<lparr> accumulators := ?A \<rparr>)"
    using assms by (simp add: emitOne_def Let_def)
  also have "\<dots> = (emitWhile (emitters ps ! i) i (ps\<lparr> accumulators := ?A \<rparr>))\<lparr> emitters := ?E \<rparr>"
    unfolding swap by (rule emitWhile_ignores_maxParticles)
  also have "emitWhile (emitters ps ! i) i (ps\<lparr> accumulators := ?A \<rparr>) = emitOne dt i ps"
    by (simp add: emitOne_def Let_def)
  finally show ?thesis .
qed

lemma fold_emitOne_ignores_maxParticles:
  assumes "\<forall>j\<in>set js. j < length (emitters ps)"
  shows "fold (emitOne dt) js (ps\<lparr> emitters := map (maxParticles_update f) (emitters ps) \<rparr>)
           = (fold (emitOne dt) js ps)\<lparr> emitters := map (maxParticles_update f) (emitters ps) \<rparr>"
  using assms
proof (induction js arbitrary: ps)
  case Nil
  then show ?case by simp
next
  case (Cons a js)
  have e: "emitters (emitOne dt a ps) = emitters ps" using emitOne_frame [of dt a ps] by simp
  have "fold (emitOne dt) js
          ((emitOne dt a ps)\<lparr> emitters := map (maxParticles_update f) (emitters (emitOne dt a ps)) \<rparr>)
        = (fold (emitOne dt) js (emitOne dt a ps))
            \<lparr> emitters := map (maxParticles_update f) (emitters (emitOne dt a ps)) \<rparr>"
    using Cons.prems by (intro Cons.IH) (simp add: e)
  then show ?case
    using Cons.prems by (simp add: emitOne_ignores_maxParticles e)
qed

lemma update_ignores_maxParticles:
  "ParticleSystem_update dt (ps\<lparr> emitters := map (maxParticles_update f) (emitters ps) \<rparr>)
     = (ParticleSystem_update dt ps)\<lparr> emitters := map (maxParticles_update f) (emitters ps) \<rparr>"
proof -
  have all: "emitAll dt (ps\<lparr> emitters := map (maxParticles_update f) (emitters ps) \<rparr>)
           = (emitAll dt ps)\<lparr> emitters := map (maxParticles_update f) (emitters ps) \<rparr>"
    using fold_emitOne_ignores_maxParticles
            [where js = "[0..<length (emitters ps)]" and ps = ps and dt = dt and f = f]
    by (simp add: emitAll_def)
  have g: "emitters ps \<noteq> []
           \<Longrightarrow> gravity (map (maxParticles_update f) (emitters ps) ! 0) = gravity (emitters ps ! 0)"
    by (cases "emitters ps") simp_all
  show ?thesis
    using g by (simp add: ParticleSystem_update_def Let_def all emitAll_frame)
qed

text \<open>
  The example of the specification: 10 particles per second in steps of 1/60 s over 5 s
  (300 calls) spawn between 49 and 51 particles, as long as the pool is never full.
\<close>

lemma spawnedOver_example:
  assumes "i < length (emitters ps)" "length (accumulators ps) = length (emitters ps)"
    and "accumulators ps ! i = 0" "rate (emitters ps ! i) = 10"
    and "\<forall>k<300. activeCount (emitAll (1 / 60) ((ParticleSystem_update (1 / 60) ^^ k) ps))
                  < length (pool ps)"
  shows "49 \<le> spawnedOver 300 (1 / 60) i ps \<and> spawnedOver 300 (1 / 60) i ps \<le> 51"
  using spawnedOver_floor [OF assms(1,2) _ _ _ assms(5)] assms(3,4) by simp

lemmas particle_eval =
  addEmitter_def ParticleSystem_new_def createDeadParticle_def embers_def emitAll_def
  emitOne_def emitWhile_step emitWhile_done spawnParticle_def activeCount_def Let_def
  spawnedBy_def ParticleSystem_update_def integrate_def halves_def

text \<open>
  Claim C10. \<^verbatim>\<open>maxParticles\<close> is never enforced: \<^verbatim>\<open>spawnParticle\<close>, and an \<^verbatim>\<open>update\<close> call as a
  whole, do the same whatever the \<^verbatim>\<open>maxParticles\<close> of the emitter configurations, and a spawn
  creates a particle whenever the pool has a slot that is not active. The active count after a
  spawn, or after a burst of \<open>n\<close>, is limited by the size of the pool only.
\<close>

theorem maxParticles_not_enforced:
  "spawnParticle (maxParticles_update f config) ps = spawnParticle config ps
   \<and> burst (maxParticles_update f config) n ps = burst config n ps
   \<and> activeCount (spawnParticle config ps) = min (length (pool ps)) (Suc (activeCount ps))
   \<and> activeCount (burst config n ps) = min (length (pool ps)) (activeCount ps + n)
   \<and> ParticleSystem_update dt (ps\<lparr> emitters := map (maxParticles_update f) (emitters ps) \<rparr>)
       = (ParticleSystem_update dt ps)\<lparr> emitters := map (maxParticles_update f) (emitters ps) \<rparr>"
  by (simp add: spawnParticle_ignores_maxParticles burst_ignores_maxParticles
                activeCount_spawnParticle activeCount_burst update_ignores_maxParticles)

text \<open>
  Claim C6, as stated, fails when the pool is exhausted: with a pool of one slot, the embers
  emitter (8 particles per second) and one step of one second, 8 particles are requested and
  one is spawned.
\<close>

theorem pool_exhaustion_counterexample:
  "spawnedOver 1 1 0 (snd (addEmitter (embers 100 100) (ParticleSystem_new 1 halves))) = 1
   \<and> rate (embers 100 100) * (real 1 * 1) = 8"
  by (simp add: particle_eval)

text \<open>
  Claim C6, amended. For an emitter whose accumulator starts at 0 (as \<^verbatim>\<open>addEmitter\<close> leaves
  it) and whose rate times \<open>dt\<close> is not negative, and as long as the pool is not full after the
  emission pass of any of the \<open>n\<close> update calls (so that no request was dropped), the number of
  particles the emitter spawns over the \<open>n\<close> calls, an accumulated duration \<open>T = n * dt\<close>,
  equals \<open>rate * T\<close> to within one particle, whatever the step size.
\<close>

theorem spawn_count_tracks_rate:
  assumes "i < length (emitters ps)" "length (accumulators ps) = length (emitters ps)"
    and "accumulators ps ! i = 0"
    and "0 \<le> rate (emitters ps ! i) * dt"
    and "\<forall>k<n. activeCount (emitAll dt ((ParticleSystem_update dt ^^ k) ps)) < length (pool ps)"
  shows "\<bar>real (spawnedOver n dt i ps) - rate (emitters ps ! i) * (real n * dt)\<bar> \<le> 1"
proof -
  let ?t = "rate (emitters ps ! i) * (real n * dt)"
  have t: "0 \<le> ?t" using assms(4) by (simp add: mult.left_commute)
  have "accumulators ps ! i + rate (emitters ps ! i) * dt * real n = ?t"
    using assms(3) by simp
  moreover have "spawnedOver n dt i ps
                   = nat \<lfloor>accumulators ps ! i + rate (emitters ps ! i) * dt * real n\<rfloor>"
    using assms(3) by (intro spawnedOver_floor [OF assms(1,2) _ _ assms(4,5)]) simp_all
  ultimately have eq: "spawnedOver n dt i ps = nat \<lfloor>?t\<rfloor>" by (simp only:)
  have "real (nat \<lfloor>?t\<rfloor>) = of_int \<lfloor>?t\<rfloor>" using t by simp
  then have "\<bar>real (nat \<lfloor>?t\<rfloor>) - ?t\<bar> \<le> 1" by linarith
  with eq show ?thesis by simp
qed

theorem spawn_count_tracks_rate_witness:
  "spawnedOver 1 (3 / 16) 0 (snd (addEmitter (embers 100 100) (ParticleSystem_new 4 halves))) = 1
   \<and> \<bar>real (spawnedOver 1 (3 / 16) 0
              (snd (addEmitter (embers 100 100) (ParticleSystem_new 4 halves))))
       - rate (embers 100 100) * (real 1 * (3 / 16))\<bar> \<le> 1
   \<and> spawnedOver 2 (3 / 16) 0 (snd (addEmitter (embers 100 100) (ParticleSystem_new 4 halves))) = 3
   \<and> \<bar>real (spawnedOver 2 (3 / 16) 0
              (snd (addEmitter (embers 100 100) (ParticleSystem_new 4 halves))))
       - rate (embers 100 100) * (real 2 * (3 / 16))\<bar> \<le> 1"
proof -
  define ps where "ps = snd (addEmitter (embers 100 100) (ParticleSystem_new 4 halves))"
  have h: "0 < length (emitters ps)" "length (accumulators ps) = length (emitters ps)"
    "accumulators ps ! 0 = 0" "0 \<le> rate (emitters ps ! 0) * (3 / 16)"
    by (simp_all add: ps_def addEmitter_def ParticleSystem_new_def embers_def)
  have room: "\<forall>k<2. activeCount (emitAll (3 / 16) ((ParticleSystem_update (3 / 16) ^^ k) ps))
                       < length (pool ps)"
    unfolding ps_def
    by (simp add: less_Suc_eq numeral_2_eq_2 particle_eval eval_nat_numeral)
  have room1: "\<forall>k<1. activeCount (emitAll (3 / 16) ((ParticleSystem_update (3 / 16) ^^ k) ps))
                       < length (pool ps)"
  proof (intro allI impI)
    fix k :: nat
    assume "k < 1"
    then have "k < 2" by simp
    with room show "activeCount (emitAll (3 / 16) ((ParticleSystem_update (3 / 16) ^^ k) ps))
                      < length (pool ps)"
      by blast
  qed
  have r: "rate (emitters ps ! 0) = 8"
    by (simp add: ps_def addEmitter_def ParticleSystem_new_def embers_def)
  have r': "rate (embers 100 100) = 8" by (simp add: embers_def)
  have "spawnedOver 1 (3 / 16) 0 ps
          = nat \<lfloor>accumulators ps ! 0 + rate (emitters ps ! 0) * (3 / 16) * real 1\<rfloor>"
    using h(3) by (intro spawnedOver_floor [OF h(1,2) _ _ h(4) room1]) simp_all
  then have one: "spawnedOver 1 (3 / 16) 0 ps = 1"
    by (simp add: r h(3))
  have "spawnedOver 2 (3 / 16) 0 ps
          = nat \<lfloor>accumulators ps ! 0 + rate (emitters ps ! 0) * (3 / 16) * real 2\<rfloor>"
    using h(3) by (intro spawnedOver_floor [OF h(1,2) _ _ h(4) room]) simp_all
  then have two: "spawnedOver 2 (3 / 16) 0 ps = 3"
    by (simp add: r h(3))
  note b1 = spawn_count_tracks_rate [OF h room1]
  note b2 = spawn_count_tracks_rate [OF h room]
  show ?thesis
    unfolding ps_def [symmetric] r'
    using b1 b2 one two unfolding r by (simp only: simp_thms)
qed

section \<open>CharacterController\<close>

lemma animations_play: "animations (AnimationController_play n a) = animations a"
  by (simp add: AnimationController_play_def switchTo_def Let_def)

lemmas walk_defs =
  walkStep_def arrive_def playState_def playLpcState_def faceAlong_def distanceToTarget_def

lemma walkStep_frame:
  "animations (animator (walkStep dt c)) = animations (animator c)"
  "currentState (walkStep dt c) = currentState c"
  "targetPosition (walkStep dt c) = targetPosition c"
  by (simp_all add: walk_defs Let_def animations_play split: option.splits)

lemma walkStep_idle: "\<not> walking c \<Longrightarrow> walkStep dt c = c"
  by (simp add: walkStep_def)

lemma walkStep_arrive:
  assumes "walking c"
    and "distanceToTarget c \<le> ARRIVE_THRESHOLD \<or> WALK_SPEED * dt \<ge> distanceToTarget c"
  shows "\<not> walking (walkStep dt c)"
    and "x (position (walkStep dt c)) = x (targetPosition c)"
    and "y (position (walkStep dt c)) = y (targetPosition c)"
  using assms by (auto simp: walk_defs Let_def split: option.splits)

lemma shrink_distance:
  fixes dx dy k :: real
  assumes "0 \<le> k"
  shows "sqrt ((k * dx) * (k * dx) + (k * dy) * (k * dy)) = k * sqrt (dx * dx + dy * dy)"
proof -
  have "(k * dx) * (k * dx) + (k * dy) * (k * dy) = k\<^sup>2 * (dx * dx + dy * dy)"
    by (simp add: power2_eq_square algebra_simps)
  then show ?thesis using assms by (simp add: real_sqrt_mult)
qed

lemma walkStep_move:
  assumes "walking c"
    and "\<not> (distanceToTarget c \<le> ARRIVE_THRESHOLD \<or> WALK_SPEED * dt \<ge> distanceToTarget c)"
  shows "walking (walkStep dt c)"
    and "x (position (walkStep dt c))
           = x (position c)
             + (x (targetPosition c) - x (position c)) / distanceToTarget c * (WALK_SPEED * dt)"
    and "y (position (walkStep dt c))
           = y (position c)
             + (y (targetPosition c) - y (position c)) / distanceToTarget c * (WALK_SPEED * dt)"
    and "distanceToTarget (walkStep dt c) = distanceToTarget c - WALK_SPEED * dt"
proof -
  let ?dx = "x (targetPosition c) - x (position c)"
  let ?dy = "y (targetPosition c) - y (position c)"
  let ?dist = "sqrt (?dx * ?dx + ?dy * ?dy)"
  let ?step = "WALK_SPEED * dt"
  have far: "ARRIVE_THRESHOLD < ?dist" "?step < ?dist"
    using assms(2) by (simp_all add: distanceToTarget_def)
  from far(1) have pos: "0 < ?dist" unfolding ARRIVE_THRESHOLD_def by linarith
  have ws: "walkStep dt c =
              faceAlong ?dx
                (c\<lparr> position := (position c)\<lparr> x := x (position c) + (?dx / ?dist) * ?step,
                                             y := y (position c) + (?dy / ?dist) * ?step \<rparr> \<rparr>)"
    using assms(1) far by (simp add: walkStep_def Let_def)
  show "walking (walkStep dt c)" using assms(1) by (simp add: ws faceAlong_def)
  show px: "x (position (walkStep dt c)) = x (position c) + ?dx / distanceToTarget c * ?step"
    by (simp add: ws faceAlong_def distanceToTarget_def)
  show py: "y (position (walkStep dt c)) = y (position c) + ?dy / distanceToTarget c * ?step"
    by (simp add: ws faceAlong_def distanceToTarget_def)
  let ?k = "1 - ?step / ?dist"
  have k: "0 \<le> ?k" using far(2) pos by simp
  have rx: "x (targetPosition c) - x (position (walkStep dt c)) = ?k * ?dx"
    unfolding px by (simp add: distanceToTarget_def algebra_simps)
  have ry: "y (targetPosition c) - y (position (walkStep dt c)) = ?k * ?dy"
    unfolding py by (simp add: distanceToTarget_def algebra_simps)
  have "distanceToTarget (walkStep dt c)
          = sqrt ((?k * ?dx) * (?k * ?dx) + (?k * ?dy) * (?k * ?dy))"
    unfolding distanceToTarget_def walkStep_frame rx ry ..
  also have "\<dots> = ?k * ?dist" by (rule shrink_distance [OF k])
  also have "\<dots> = ?dist - ?step" using pos by (simp add: field_simps)
  finally show "distanceToTarget (walkStep dt c) = distanceToTarget c - ?step"
    by (simp add: distanceToTarget_def)
qed

text \<open>The whole \<^verbatim>\<open>update\<close>: it returns when every frame duration is positive.\<close>

lemma CharacterController_update_returns:
  assumes "\<forall>n d. animations (animator c) n = Some d \<longrightarrow> 0 < frameDuration d"
  shows "\<exists>c'. CharacterController_update dt c = Some c'
            \<and> walking c' = walking (walkStep dt c)
            \<and> position c' = position (walkStep dt c)
            \<and> targetPosition c' = targetPosition c
            \<and> currentState c' = currentState c
            \<and> animations (animator c') = animations (animator c)"
proof -
  have "\<forall>n d. animations (animator (walkStep dt c)) n = Some d \<longrightarrow> 0 < frameDuration d"
    using assms by (simp add: walkStep_frame)
  from AnimationController_update_total [OF this, of dt]
  obtain an where an: "AnimationController_update dt (animator (walkStep dt c)) = Some an"
    "animations an = animations (animator (walkStep dt c))"
    by blast
  then show ?thesis
    by (simp add: CharacterController_update_def Let_def walkStep_frame)
qed

lemma distanceToTarget_cong:
  "position c' = position c \<Longrightarrow> targetPosition c' = targetPosition c
   \<Longrightarrow> distanceToTarget c' = distanceToTarget c"
  by (simp add: distanceToTarget_def)

lemma updates_idle:
  assumes "\<forall>n d. animations (animator c) n = Some d \<longrightarrow> 0 < frameDuration d"
    and "\<not> walking c"
  shows "\<exists>c'. CharacterController_updates dts c = Some c' \<and> \<not> walking c'
            \<and> position c' = position c \<and> currentState c' = currentState c"
  using assms
proof (induction dts arbitrary: c)
  case Nil
  then show ?case by simp
next
  case (Cons d dts)
  from CharacterController_update_returns [OF Cons.prems(1), of d]
  obtain c1 where c1: "CharacterController_update d c = Some c1"
    "walking c1 = walking (walkStep d c)" "position c1 = position (walkStep d c)"
    "currentState c1 = currentState c" "animations (animator c1) = animations (animator c)"
    by blast
  have "\<exists>c'. CharacterController_updates dts c1 = Some c' \<and> \<not> walking c'
            \<and> position c' = position c1 \<and> currentState c' = currentState c1"
    using Cons.prems c1 by (intro Cons.IH) (simp_all add: walkStep_idle)
  then show ?case using c1 Cons.prems(2) by (simp add: walkStep_idle)
qed

lemma updates_walking:
  assumes "\<forall>n d. animations (animator c) n = Some d \<longrightarrow> 0 < frameDuration d"
    and "walking c" "\<forall>dt\<in>set dts. 0 \<le> dt"
    and "WALK_SPEED * sum_list dts < distanceToTarget c - ARRIVE_THRESHOLD"
  shows "\<exists>c'. CharacterController_updates dts c = Some c' \<and> walking c'
            \<and> distanceToTarget c' = distanceToTarget c - WALK_SPEED * sum_list dts"
  using assms
proof (induction dts arbitrary: c)
  case Nil
  then show ?case by simp
next
  case (Cons d dts)
  have nn: "0 \<le> WALK_SPEED * sum_list dts" "0 \<le> WALK_SPEED * d"
    using Cons.prems(3) by (simp_all add: WALK_SPEED_def sum_list_nonneg)
  have split: "WALK_SPEED * sum_list (d # dts) = WALK_SPEED * d + WALK_SPEED * sum_list dts"
    by (simp add: algebra_simps)
  have far: "\<not> (distanceToTarget c \<le> ARRIVE_THRESHOLD \<or> WALK_SPEED * d \<ge> distanceToTarget c)"
    using Cons.prems(4) nn unfolding split ARRIVE_THRESHOLD_def by linarith
  note mv = walkStep_move [OF Cons.prems(2) far]
  from CharacterController_update_returns [OF Cons.prems(1), of d]
  obtain c1 where c1: "CharacterController_update d c = Some c1"
    "walking c1 = walking (walkStep d c)" "position c1 = position (walkStep d c)"
    "targetPosition c1 = targetPosition c" "animations (animator c1) = animations (animator c)"
    by blast
  have d1: "distanceToTarget c1 = distanceToTarget c - WALK_SPEED * d"
    using distanceToTarget_cong [of c1 "walkStep d c"] c1 mv(4) by (simp add: walkStep_frame)
  have "\<exists>c'. CharacterController_updates dts c1 = Some c' \<and> walking c'
            \<and> distanceToTarget c' = distanceToTarget c1 - WALK_SPEED * sum_list dts"
    using Cons.prems c1 mv(1) d1 unfolding split
    by (intro Cons.IH) simp_all
  then show ?case using c1 d1 unfolding split by auto
qed

lemma updates_arrive:
  assumes "\<forall>n d. animations (animator c) n = Some d \<longrightarrow> 0 < frameDuration d"
    and "walking c" "\<forall>dt\<in>set dts. 0 \<le> dt"
    and "0 < distanceToTarget c" "distanceToTarget c \<le> WALK_SPEED * sum_list dts"
  shows "\<exists>c'. CharacterController_updates dts c = Some c' \<and> \<not> walking c'
            \<and> x (position c') = x (targetPosition c) \<and> y (position c') = y (targetPosition c)
            \<and> currentState c' = currentState c"
  using assms
proof (induction dts arbitrary: c)
  case Nil
  then show ?case by simp
next
  case (Cons d dts)
  have split: "WALK_SPEED * sum_list (d # dts) = WALK_SPEED * d + WALK_SPEED * sum_list dts"
    by (simp add: algebra_simps)
  from CharacterController_update_returns [OF Cons.prems(1), of d]
  obtain c1 where c1: "CharacterController_update d c = Some c1"
    "walking c1 = walking (walkStep d c)" "position c1 = position (walkStep d c)"
    "targetPosition c1 = targetPosition c" "currentState c1 = currentState c"
    "animations (animator c1) = animations (animator c)"
    by blast
  show ?case
  proof (cases "distanceToTarget c \<le> ARRIVE_THRESHOLD \<or> WALK_SPEED * d \<ge> distanceToTarget c")
    case True
    note ar = walkStep_arrive [OF Cons.prems(2) True]
    have "\<exists>c'. CharacterController_updates dts c1 = Some c' \<and> \<not> walking c'
            \<and> position c' = position c1 \<and> currentState c' = currentState c1"
      using Cons.prems(1) c1 ar(1) by (intro updates_idle) simp_all
    then show ?thesis using c1 ar by auto
  next
    case False
    note mv = walkStep_move [OF Cons.prems(2) False]
    have d1: "distanceToTarget c1 = distanceToTarget c - WALK_SPEED * d"
      using distanceToTarget_cong [of c1 "walkStep d c"] c1 mv(4) by (simp add: walkStep_frame)
    have "\<exists>c'. CharacterController_updates dts c1 = Some c' \<and> \<not> walking c'
            \<and> x (position c') = x (targetPosition c1) \<and> y (position c') = y (targetPosition c1)
            \<and> currentState c' = currentState c1"
      using Cons.prems c1 mv(1) d1 False unfolding split
      by (intro Cons.IH) simp_all
    then show ?thesis using c1 by auto
  qed
qed

lemma setState_walks:
  assumes "actionPositions c st = Some target"
    and "ARRIVE_THRESHOLD
           < sqrt ((x target - x (position c)) * (x target - x (position c))
                 + (y target - y (position c)) * (y target - y (position c)))"
  shows "walking (setState st c)" "targetPosition (setState st c) = target"
    "position (setState st c) = position c" "currentState (setState st c) = st"
    "animations (animator (setState st c)) = animations (animator c)"
  using assms
  by (simp_all add: setState_def Let_def playLpcWalk_def faceAlong_def animations_play
               split: option.splits)

text \<open>
  Claim C4. The frame durations of the character's animations are positive, so that
  \<^verbatim>\<open>update\<close> returns. While the character walks, an \<^verbatim>\<open>update\<close> call either arrives (the
  remaining distance is at most the threshold, or the step \<open>WALK_SPEED * dt\<close> would reach or
  pass the target): walking becomes false and the position is the target; or it does not, and
  then walking stays true and the position moves by \<open>WALK_SPEED * dt\<close> along the line to the
  target, the remaining distance shrinking by as much. And \<^verbatim>\<open>setState('read')\<close> with a target 50
  units away starts the walk; under non-negative steps the character still walks while the
  accumulated time leaves it further than the threshold from the target, and once the
  accumulated time is at least \<open>50 / WALK_SPEED\<close> seconds it stands at the target, not walking,
  in the state \<open>read\<close>.
\<close>

theorem walk_reaches_target:
  assumes "\<forall>n d. animations (animator c) n = Some d \<longrightarrow> 0 < frameDuration d"
  shows "(walking c
          \<and> (distanceToTarget c \<le> ARRIVE_THRESHOLD \<or> WALK_SPEED * dt \<ge> distanceToTarget c)
          \<longrightarrow> (\<exists>c'. CharacterController_update dt c = Some c' \<and> \<not> walking c'
                    \<and> x (position c') = x (targetPosition c)
                    \<and> y (position c') = y (targetPosition c)))
       \<and> (walking c
          \<and> \<not> (distanceToTarget c \<le> ARRIVE_THRESHOLD \<or> WALK_SPEED * dt \<ge> distanceToTarget c)
          \<longrightarrow> (\<exists>c'. CharacterController_update dt c = Some c' \<and> walking c'
                    \<and> x (position c')
                        = x (position c)
                          + (x (targetPosition c) - x (position c)) / distanceToTarget c
                            * (WALK_SPEED * dt)
                    \<and> y (position c')
                        = y (position c)
                          + (y (targetPosition c) - y (position c)) / distanceToTarget c
                            * (WALK_SPEED * dt)
                    \<and> distanceToTarget c' = distanceToTarget c - WALK_SPEED * dt))
       \<and> (actionPositions c read = Some target
          \<and> sqrt ((x target - x (position c)) * (x target - x (position c))
                  + (y target - y (position c)) * (y target - y (position c))) = 50
          \<and> (\<forall>dt\<in>set dts. 0 \<le> dt)
          \<longrightarrow> walking (setState read c)
              \<and> (WALK_SPEED * sum_list dts < 50 - ARRIVE_THRESHOLD
                  \<longrightarrow> (\<exists>c'. CharacterController_updates dts (setState read c) = Some c'
                            \<and> walking c'))
              \<and> (50 / WALK_SPEED \<le> sum_list dts
                  \<longrightarrow> (\<exists>c'. CharacterController_updates dts (setState read c) = Some c'
                            \<and> \<not> walking c' \<and> x (position c') = x target
                            \<and> y (position c') = y target \<and> currentState c' = read)))"
proof (intro conjI impI)
  assume h: "walking c
     \<and> (distanceToTarget c \<le> ARRIVE_THRESHOLD \<or> WALK_SPEED * dt \<ge> distanceToTarget c)"
  from CharacterController_update_returns [OF assms, of dt]
  obtain c' where c': "CharacterController_update dt c = Some c'"
    "walking c' = walking (walkStep dt c)" "position c' = position (walkStep dt c)"
    by blast
  then show "\<exists>c'. CharacterController_update dt c = Some c' \<and> \<not> walking c'
                \<and> x (position c') = x (targetPosition c)
                \<and> y (position c') = y (targetPosition c)"
    using walkStep_arrive [of c dt] h by simp
next
  assume h: "walking c
     \<and> \<not> (distanceToTarget c \<le> ARRIVE_THRESHOLD \<or> WALK_SPEED * dt \<ge> distanceToTarget c)"
  then have w: "walking c"
    and far: "\<not> (distanceToTarget c \<le> ARRIVE_THRESHOLD \<or> WALK_SPEED * dt \<ge> distanceToTarget c)"
    by simp_all
  note mv = walkStep_move [OF w far]
  from CharacterController_update_returns [OF assms, of dt]
  obtain c' where c': "CharacterController_update dt c = Some c'"
    "walking c' = walking (walkStep dt c)" "position c' = position (walkStep dt c)"
    "targetPosition c' = targetPosition c"
    by blast
  have "distanceToTarget c' = distanceToTarget c - WALK_SPEED * dt"
    using distanceToTarget_cong [of c' "walkStep dt c"] c' mv(4) by (simp add: walkStep_frame)
  then show "\<exists>c'. CharacterController_update dt c = Some c' \<and> walking c'
      \<and> x (position c')
          = x (position c)
            + (x (targetPosition c) - x (position c)) / distanceToTarget c * (WALK_SPEED * dt)
      \<and> y (position c')
          = y (position c)
            + (y (targetPosition c) - y (position c)) / distanceToTarget c * (WALK_SPEED * dt)
      \<and> distanceToTarget c' = distanceToTarget c - WALK_SPEED * dt"
    using c' mv by simp
next
  assume h: "actionPositions c read = Some target
     \<and> sqrt ((x target - x (position c)) * (x target - x (position c))
            + (y target - y (position c)) * (y target - y (position c))) = 50
     \<and> (\<forall>dt\<in>set dts. 0 \<le> dt)"
  then have far: "ARRIVE_THRESHOLD
           < sqrt ((x target - x (position c)) * (x target - x (position c))
                 + (y target - y (position c)) * (y target - y (position c)))"
    by (simp add: ARRIVE_THRESHOLD_def)
  note st = setState_walks [OF _ far, of read]
  show "walking (setState read c)" using st(1) h by simp
next
  assume h: "actionPositions c read = Some target
     \<and> sqrt ((x target - x (position c)) * (x target - x (position c))
            + (y target - y (position c)) * (y target - y (position c))) = 50
     \<and> (\<forall>dt\<in>set dts. 0 \<le> dt)"
    and short: "WALK_SPEED * sum_list dts < 50 - ARRIVE_THRESHOLD"
  then have far: "ARRIVE_THRESHOLD
           < sqrt ((x target - x (position c)) * (x target - x (position c))
                 + (y target - y (position c)) * (y target - y (position c)))"
    by (simp add: ARRIVE_THRESHOLD_def)
  have ap: "actionPositions c read = Some target" using h by simp
  note st = setState_walks [OF ap far]
  have d0: "distanceToTarget (setState read c) = 50"
    using h by (simp add: distanceToTarget_def st)
  have "\<exists>c'. CharacterController_updates dts (setState read c) = Some c' \<and> walking c'
            \<and> distanceToTarget c'
                = distanceToTarget (setState read c) - WALK_SPEED * sum_list dts"
    using assms h short st(1) by (intro updates_walking) (simp_all add: st(5) d0)
  then show "\<exists>c'. CharacterController_updates dts (setState read c) = Some c' \<and> walking c'"
    by blast
next
  assume h: "actionPositions c read = Some target
     \<and> sqrt ((x target - x (position c)) * (x target - x (position c))
            + (y target - y (position c)) * (y target - y (position c))) = 50
     \<and> (\<forall>dt\<in>set dts. 0 \<le> dt)"
    and long: "50 / WALK_SPEED \<le> sum_list dts"
  then have far: "ARRIVE_THRESHOLD
           < sqrt ((x target - x (position c)) * (x target - x (position c))
                 + (y target - y (position c)) * (y target - y (position c)))"
    by (simp add: ARRIVE_THRESHOLD_def)
  have ap: "actionPositions c read = Some target" using h by simp
  note st = setState_walks [OF ap far]
  have d0: "distanceToTarget (setState read c) = 50"
    using h by (simp add: distanceToTarget_def st)
  have enough: "distanceToTarget (setState read c) \<le> WALK_SPEED * sum_list dts"
    using long by (simp add: d0 WALK_SPEED_def)
  have "\<exists>c'. CharacterController_updates dts (setState read c) = Some c' \<and> \<not> walking c'
            \<and> x (position c') = x (targetPosition (setState read c))
            \<and> y (position c') = y (targetPosition (setState read c))
            \<and> currentState c' = currentState (setState read c)"
    using assms h st(1) enough by (intro updates_arrive) (simp_all add: st(5) d0)
  then show "\<exists>c'. CharacterController_updates dts (setState read c) = Some c'
            \<and> \<not> walking c' \<and> x (position c') = x target
            \<and> y (position c') = y target \<and> currentState c' = read"
    by (simp add: st)
qed

theorem walk_reaches_target_witness:
  "walking (setState read
      (setActionPositions [read \<mapsto> \<lparr> x = 50, y = 172 \<rparr>]
         (CharacterController_new hunter \<lparr> x = 0, y = 172 \<rparr> (Map.empty :: string \<rightharpoonup> nat)
            [''idle'' \<mapsto> \<lparr> frames = [''i0'', ''i1''], frameDuration = 0.6, loop = True \<rparr>,
             ''walk'' \<mapsto> \<lparr> frames = [''w0'', ''w1''], frameDuration = 0.15, loop = True \<rparr>,
             ''read'' \<mapsto> \<lparr> frames = [''r0'', ''r1''], frameDuration = 0.4, loop = True \<rparr>])))
   \<and> map_option walking
       (CharacterController_updates [0.5]
          (setState read
             (setActionPositions [read \<mapsto> \<lparr> x = 50, y = 172 \<rparr>]
                (CharacterController_new hunter \<lparr> x = 0, y = 172 \<rparr> (Map.empty :: string \<rightharpoonup> nat)
                   [''idle'' \<mapsto> \<lparr> frames = [''i0'', ''i1''], frameDuration = 0.6, loop = True \<rparr>,
                    ''walk'' \<mapsto> \<lparr> frames = [''w0'', ''w1''], frameDuration = 0.15, loop = True \<rparr>,
                    ''read'' \<mapsto> \<lparr> frames = [''r0'', ''r1''], frameDuration = 0.4, loop = True \<rparr>]))))
       = Some True
   \<and> map_option (\<lambda>c. (walking c, x (position c), y (position c), currentState c))
       (CharacterController_updates [0.5, 0.5]
          (setState read
             (setActionPositions [read \<mapsto> \<lparr> x = 50, y = 172 \<rparr>]
                (CharacterController_new hunter \<lparr> x = 0, y = 172 \<rparr> (Map.empty :: string \<rightharpoonup> nat)
                   [''idle'' \<mapsto> \<lparr> frames = [''i0'', ''i1''], frameDuration = 0.6, loop = True \<rparr>,
                    ''walk'' \<mapsto> \<lparr> frames = [''w0'', ''w1''], frameDuration = 0.15, loop = True \<rparr>,
                    ''read'' \<mapsto> \<lparr> frames = [''r0'', ''r1''], frameDuration = 0.4, loop = True \<rparr>]))))
       = Some (False, 50, 172, read)"
proof -
  let ?anims = "[''idle'' \<mapsto> \<lparr> frames = [''i0'', ''i1''], frameDuration = 0.6, loop = True \<rparr>,
             ''walk'' \<mapsto> \<lparr> frames = [''w0'', ''w1''], frameDuration = 0.15, loop = True \<rparr>,
             ''read'' \<mapsto> \<lparr> frames = [''r0'', ''r1''], frameDuration = 0.4, loop = True \<rparr>]"
  let ?target = "\<lparr> x = 50, y = 172 \<rparr>"
  let ?c = "setActionPositions [read \<mapsto> ?target]
              (CharacterController_new hunter \<lparr> x = 0, y = 172 \<rparr> (Map.empty :: string \<rightharpoonup> nat) ?anims)"
  have an: "animations (animator ?c) = ?anims"
    by (simp add: setActionPositions_def CharacterController_new_def animations_play
                  AnimationController_new_def)
  have wf: "\<forall>n d. animations (animator ?c) n = Some d \<longrightarrow> 0 < frameDuration d"
    unfolding an by (auto split: if_splits)
  have start: "actionPositions ?c read = Some ?target
     \<and> sqrt ((x ?target - x (position ?c)) * (x ?target - x (position ?c))
            + (y ?target - y (position ?c)) * (y ?target - y (position ?c))) = 50"
    by (simp add: setActionPositions_def CharacterController_new_def)
  note t1 = walk_reaches_target [OF wf, of _ ?target "[0.5]"]
  note t2 = walk_reaches_target [OF wf, of _ ?target "[0.5, 0.5]"]
  have a: "walking (setState read ?c)"
    using t1 start by simp
  have "\<exists>c'. CharacterController_updates [0.5] (setState read ?c) = Some c' \<and> walking c'"
    using t1 start by (simp add: WALK_SPEED_def ARRIVE_THRESHOLD_def)
  then have b: "map_option walking (CharacterController_updates [0.5] (setState read ?c)) = Some True"
    by auto
  have "\<exists>c'. CharacterController_updates [0.5, 0.5] (setState read ?c) = Some c'
            \<and> \<not> walking c' \<and> x (position c') = x ?target
            \<and> y (position c') = y ?target \<and> currentState c' = read"
    using t2 start by (simp add: WALK_SPEED_def)
  then have c: "map_option (\<lambda>c. (walking c, x (position c), y (position c), currentState c))
       (CharacterController_updates [0.5, 0.5] (setState read ?c)) = Some (False, 50, 172, read)"
    by auto
  show ?thesis using a b c by simp
qed

end
